theory Spec2Isabelle
  imports Complex_Main "HOL-Library.Word"
begin

section \<open>Python strings\<close>

text \<open>
  Strings are byte strings (UTF-8).  \<open>str.upper\<close> and \<open>str.strip\<close> follow Unicode rules
  (the dotless i uppercases to \<open>I\<close>, a no-break space is white space), which no
  function on single bytes reproduces; the tools therefore take them from the
  environment, as the parameters \<open>str_upper\<close> and \<open>str_strip\<close>.  \<open>ascii_upper\<close> and
  \<open>ascii_strip\<close> are what they do on ASCII strings, for concrete inputs.  \<open>lower\<close> is
  \<open>str.lower\<close> on ASCII strings: the compressor applies it to \<open>AVIF\<close> and \<open>WEBP\<close> only.
\<close>

definition ascii_lowercase :: string where
  "ascii_lowercase = ''abcdefghijklmnopqrstuvwxyz''"

definition ascii_uppercase :: string where
  "ascii_uppercase = ''ABCDEFGHIJKLMNOPQRSTUVWXYZ''"

definition upper_char :: "char \<Rightarrow> char" where
  "upper_char c = (case map_of (zip ascii_lowercase ascii_uppercase) c of Some u \<Rightarrow> u | None \<Rightarrow> c)"

definition lower_char :: "char \<Rightarrow> char" where
  "lower_char c = (case map_of (zip ascii_uppercase ascii_lowercase) c of Some l \<Rightarrow> l | None \<Rightarrow> c)"

definition ascii_upper :: "string \<Rightarrow> string" where
  "ascii_upper s = map upper_char s"

definition lower :: "string \<Rightarrow> string" where
  "lower s = map lower_char s"

text \<open>\<open>str.isspace\<close> on ASCII: tab, LF, VT, FF, CR, the separators 0x1c..0x1f and space.\<close>

definition isspace :: "char \<Rightarrow> bool" where
  "isspace c = (c \<in> set [CHR 0x09, CHR 0x0A, CHR 0x0B, CHR 0x0C, CHR 0x0D,
                          CHR 0x1C, CHR 0x1D, CHR 0x1E, CHR 0x1F, CHR '' ''])"

definition ascii_strip :: "string \<Rightarrow> string" where
  "ascii_strip s = rev (dropWhile isspace (rev (dropWhile isspace s)))"

text \<open>\<open>sep.join(xs)\<close>.\<close>

fun join :: "string \<Rightarrow> string list \<Rightarrow> string" where
  "join sep [] = []"
| "join sep [x] = x"
| "join sep (x # y # ys) = x @ sep @ join sep (y # ys)"

text \<open>\<open>s.split(sep)\<close> for a one-character separator: never empty, pieces may be.\<close>

fun split_on :: "char \<Rightarrow> string \<Rightarrow> string list" where
  "split_on sep [] = [[]]"
| "split_on sep (c # cs) =
     (if c = sep then [] # split_on sep cs
      else (case split_on sep cs of [] \<Rightarrow> [[c]] | w # ws \<Rightarrow> (c # w) # ws))"

text \<open>\<open>s.rfind(c)\<close>: the index of the last occurrence, \<open>None\<close> for Python's \<open>-1\<close>.\<close>

fun rfind :: "char \<Rightarrow> string \<Rightarrow> nat option" where
  "rfind c [] = None"
| "rfind c (x # xs) =
     (case rfind c xs of Some i \<Rightarrow> Some (Suc i)
      | None \<Rightarrow> (if x = c then Some 0 else None))"

section \<open>pathlib, POSIX flavour, as in CPython 3.11\<close>

datatype error =
    ValueError
  | DecodeError
  | PillowError
  | RuntimeError string
  | CalledProcessError
  | CouldntEncodeError
  | OSError

text \<open>
  A parsed path: the root (\<open>''''\<close>, \<open>''/''\<close> or \<open>''//''\<close>) and the components after it.
  Parsing splits at \<open>/\<close> and drops empty and \<open>.\<close> components.
\<close>

record ppath =
  p_root :: string
  p_parts :: "string list"

definition splitroot :: "string \<Rightarrow> string \<times> string" where
  "splitroot part =
     (if part \<noteq> [] \<and> hd part = CHR ''/'' then
        (let stripped_part = dropWhile (\<lambda>c. c = CHR ''/'') part in
         if length part - length stripped_part = 2 then (''//'', stripped_part)
         else (''/'', stripped_part))
      else ([], part))"

definition Path :: "string \<Rightarrow> ppath" where
  "Path s = (let (r, rel) = splitroot s in
     \<lparr>p_root = r, p_parts = filter (\<lambda>x. x \<noteq> [] \<and> x \<noteq> ''.'') (split_on CHR ''/'' rel)\<rparr>)"

text \<open>\<open>str(p)\<close> and \<open>p.as_posix()\<close>.\<close>

definition path_str :: "ppath \<Rightarrow> string" where
  "path_str p = (let s = p_root p @ join ''/'' (p_parts p) in if s = [] then ''.'' else s)"

text \<open>\<open>p / s\<close> for a string segment \<open>s\<close>: an absolute segment replaces the path.\<close>

definition joinpath :: "ppath \<Rightarrow> string \<Rightarrow> ppath" where
  "joinpath p s = (let q = Path s in
     if p_root q \<noteq> [] then q else \<lparr>p_root = p_root p, p_parts = p_parts p @ p_parts q\<rparr>)"

definition path_name :: "ppath \<Rightarrow> string" where
  "path_name p = (if p_parts p = [] then [] else last (p_parts p))"

definition path_suffix :: "ppath \<Rightarrow> string" where
  "path_suffix p = (let name = path_name p in
     case rfind CHR ''.'' name of
       None \<Rightarrow> []
     | Some i \<Rightarrow> if 0 < i \<and> i + 1 < length name then drop i name else [])"

definition path_stem :: "ppath \<Rightarrow> string" where
  "path_stem p = (let name = path_name p in
     case rfind CHR ''.'' name of
       None \<Rightarrow> name
     | Some i \<Rightarrow> if 0 < i \<and> i + 1 < length name then take i name else name)"

definition with_suffix :: "ppath \<Rightarrow> string \<Rightarrow> error + ppath" where
  "with_suffix p suffix =
     (if CHR ''/'' \<in> set suffix then Inl ValueError
      else if (suffix \<noteq> [] \<and> hd suffix \<noteq> CHR ''.'') \<or> suffix = ''.'' then Inl ValueError
      else let name = path_name p in
        if name = [] then Inl ValueError
        else let old_suffix = path_suffix p;
                 name' = (if old_suffix = [] then name @ suffix
                          else take (length name - length old_suffix) name @ suffix)
             in Inr (p\<lparr>p_parts := butlast (p_parts p) @ [name']\<rparr>))"

subsection \<open>Directories\<close>

definition ASSET_DIR :: ppath where
  "ASSET_DIR = Path ''assets''"

definition IMG_DIR :: ppath where
  "IMG_DIR = joinpath ASSET_DIR ''images''"

definition AUD_DIR :: ppath where
  "AUD_DIR = joinpath ASSET_DIR ''audio''"

text \<open>
  \<open>in_dir d f\<close>: the file path \<open>f\<close> is \<open>d\<close>, a slash and a non-empty file name without
  a slash, that is, the file lies directly in directory \<open>d\<close>.
\<close>

definition in_dir :: "string \<Rightarrow> string \<Rightarrow> bool" where
  "in_dir d f = (take (length d + 1) f = d @ ''/'' \<and>
     drop (length d + 1) f \<noteq> [] \<and> CHR ''/'' \<notin> set (drop (length d + 1) f))"

section \<open>Image tools\<close>

text \<open>A decoded image is its pixel size.\<close>

record image =
  width :: int
  height :: int

text \<open>
  Pillow, as the environment supplies it.
  \<^item> \<open>open_image path\<close> is \<open>Image.open(path).convert("RGBA")\<close>: \<open>None\<close> when the path
    cannot be read or decoded.
  \<^item> \<open>fit_ok src size\<close> tells whether \<open>ImageOps.fit(src, size, LANCZOS)\<close> succeeds for a
    size with positive sides (it raises, for instance, when a side is too large).
  \<^item> \<open>save_ok variant path\<close> tells whether \<open>variant.save(path, format="PNG",
    optimize=True)\<close> succeeds.
  \<^item> \<open>encode im fmt q\<close> is \<open>im.save(out_file, format=fmt, quality=q)\<close> followed by
    \<open>out_file.stat().st_size\<close>: the byte size of the file written, \<open>None\<close> when the save
    raises (WebP, for instance, refuses an image wider than 16383 pixels).
\<close>

record pillow =
  open_image :: "string \<Rightarrow> image option"
  fit_ok :: "image \<Rightarrow> int \<times> int \<Rightarrow> bool"
  save_ok :: "image \<Rightarrow> string \<Rightarrow> bool"
  encode :: "image \<Rightarrow> string \<Rightarrow> int \<Rightarrow> nat option"

text \<open>One \<open>image.save(path, format=..., quality=...)\<close> call, successful or not.\<close>

datatype image_save =
  ImageSave (save_path: string) (save_format: string) (save_quality: "int option") (save_image: image)

text \<open>
  \<open>ImageOps.fit(src, size, method)\<close>: it raises when a requested side is not positive
  and when the environment says so; otherwise the result is an image of exactly the
  requested size, cropped around the centre.
\<close>

definition ImageOps_fit :: "pillow \<Rightarrow> image \<Rightarrow> int \<times> int \<Rightarrow> error + image" where
  "ImageOps_fit lib src sz =
     (if fst sz \<le> 0 \<or> snd sz \<le> 0 \<or> \<not> fit_ok lib src sz then Inl PillowError
      else Inr \<lparr>width = fst sz, height = snd sz\<rparr>)"

text \<open>
  \<open>int(a / b)\<close> for integers \<open>a\<close> and \<open>b \<noteq> 0\<close>: true division, then truncation toward
  zero.  The float quotient of two integers is correctly rounded, so the truncation is
  that of the exact quotient as long as \<open>a\<close> stays below \<open>2^53\<close> in size.
\<close>

definition py_int_truediv :: "int \<Rightarrow> int \<Rightarrow> int" where
  "py_int_truediv a b = sgn a * sgn b * (\<bar>a\<bar> div \<bar>b\<bar>)"

definition variants :: "(string \<times> int \<times> int) list" where
  "variants = [(''169'', 16, 9), (''32'', 3, 2), (''11'', 1, 1)]"

fun responsive_loop ::
  "pillow \<Rightarrow> image \<Rightarrow> string \<Rightarrow> int \<Rightarrow> (string \<times> int \<times> int) list \<Rightarrow> image_save list
   \<Rightarrow> string list \<Rightarrow> image_save list \<times> (error + string list)" where
  "responsive_loop lib src png_path max_width [] saved out_paths = (saved, Inr out_paths)"
| "responsive_loop lib src png_path max_width ((key, w_ratio, h_ratio) # rest) saved out_paths =
     (let target_w = max_width;
          target_h = py_int_truediv (target_w * h_ratio) w_ratio
      in case ImageOps_fit lib src (target_w, target_h) of
           Inl e \<Rightarrow> (saved, Inl e)
         | Inr variant \<Rightarrow>
             (let out_name = path_str (joinpath IMG_DIR
                               (path_stem (Path png_path) @ ''_'' @ key @ ''.png''));
                  saved' = saved @ [ImageSave out_name ''PNG'' None variant]
              in if \<not> save_ok lib variant out_name then (saved', Inl PillowError)
                 else responsive_loop lib src png_path max_width rest saved'
                        (out_paths @ [out_name])))"

text \<open>
  \<open>ImageResponsiveTool._run\<close>: the saves attempted, in order (the last one failed when
  the run raises after it), and the exception raised or the list of paths returned.
\<close>

definition ImageResponsiveTool_run ::
  "pillow \<Rightarrow> string \<Rightarrow> int \<Rightarrow> image_save list \<times> (error + string list)" where
  "ImageResponsiveTool_run lib png_path max_width =
     (case open_image lib png_path of
        None \<Rightarrow> ([], Inl DecodeError)
      | Some src \<Rightarrow> responsive_loop lib src png_path max_width variants [] [])"

text \<open>
  The loop of \<open>ImageCompressTool._run\<close>, entered with the current \<open>quality\<close>.
  \<open>save q\<close> is the save at quality \<open>q\<close> followed by \<open>stat().st_size\<close>.  The result is the
  list of qualities the loop saves at, in order, and the exception of the last save when
  it raised; otherwise the file holds the last save when the loop ends.
\<close>

function compress_loop :: "(int \<Rightarrow> nat option) \<Rightarrow> int \<Rightarrow> int \<Rightarrow> int list \<times> error option" where
  "compress_loop save target_size_kb quality =
     (if quality \<ge> 10 then
        (case save quality of
           None \<Rightarrow> ([quality], Some PillowError)
         | Some st_size \<Rightarrow>
             (let size_kb = int (st_size div 1024)
              in if size_kb \<le> target_size_kb then ([quality], None)
                 else (case compress_loop save target_size_kb (quality - 10) of
                         (tried, failure) \<Rightarrow> (quality # tried, failure))))
      else ([], None))"
  by pat_completeness auto
termination
  by (relation "measure (\<lambda>(save, target_size_kb, quality). nat quality)") auto

text \<open>\<open>ImageCompressTool._run\<close>; \<open>str_upper\<close> is \<open>str.upper\<close>.\<close>

definition ImageCompressTool_run ::
  "(string \<Rightarrow> string) \<Rightarrow> pillow \<Rightarrow> string \<Rightarrow> string \<Rightarrow> int
   \<Rightarrow> image_save list \<times> (error + string)" where
  "ImageCompressTool_run str_upper lib png_path fmt0 target_size_kb =
     (let fmt = str_upper fmt0 in
      if fmt \<notin> {''AVIF'', ''WEBP''} then ([], Inl ValueError)
      else case open_image lib png_path of
        None \<Rightarrow> ([], Inl DecodeError)
      | Some im \<Rightarrow>
          (case with_suffix (Path png_path) (''.'' @ lower fmt) of
             Inl e \<Rightarrow> ([], Inl e)
           | Inr out_file \<Rightarrow>
               (case compress_loop (encode lib im fmt) target_size_kb 80 of
                  (tried, failure) \<Rightarrow>
                    (map (\<lambda>q. ImageSave (path_str out_file) fmt (Some q) im) tried,
                     case failure of
                       Some e \<Rightarrow> Inl e
                     | None \<Rightarrow> Inr (path_str out_file)))))"

section \<open>Audio tools\<close>

text \<open>
  The part of pydub that \<open>AudioNormalizeTool._run\<close> calls, as the environment supplies
  it.  \<open>'snd\<close> is a decoded \<open>AudioSegment\<close>, \<open>'t\<close> the type of Python floats: the tool
  only subtracts two of them.  \<open>from_file\<close> is \<open>None\<close> when the source cannot be decoded;
  \<open>export_ok sound path format bitrate\<close> tells whether the export succeeds.
\<close>

record ('snd, 't) pydub =
  from_file :: "string \<Rightarrow> 'snd option"
  dBFS :: "'snd \<Rightarrow> 't"
  apply_gain :: "'snd \<Rightarrow> 't \<Rightarrow> 'snd"
  strip_silence :: "'snd \<Rightarrow> int \<Rightarrow> int \<Rightarrow> 'snd"
  export_ok :: "'snd \<Rightarrow> string \<Rightarrow> string \<Rightarrow> string \<Rightarrow> bool"

text \<open>One \<open>sound.export(path, format=..., bitrate=...)\<close> call, successful or not.\<close>

datatype 'snd audio_export =
  AudioExport (export_path: string) (export_format: string) (export_bitrate: string)
    (export_sound: 'snd)

text \<open>
  \<open>AudioNormalizeTool._run\<close>: the exports attempted, in order (the last one failed when
  the run raises), and the exception raised or the path returned.  The arguments of
  \<open>strip_silence\<close> are \<open>silence_len\<close> (ms) and \<open>silence_thresh\<close> (dB).
\<close>

definition AudioNormalizeTool_run ::
  "('snd, 't::minus) pydub \<Rightarrow> string \<Rightarrow> 't \<Rightarrow> 'snd audio_export list \<times> (error + string)" where
  "AudioNormalizeTool_run lib wav_or_mp3_path target_lufs =
     (case from_file lib wav_or_mp3_path of
        None \<Rightarrow> ([], Inl DecodeError)
      | Some sound0 \<Rightarrow>
          (let change_needed = target_lufs - dBFS lib sound0;
               sound1 = apply_gain lib sound0 change_needed;
               sound2 = strip_silence lib sound1 200 (- 40);
               out_base = joinpath AUD_DIR (path_stem (Path wav_or_mp3_path));
               ogg_path = path_str out_base @ ''.ogg'';
               mp3_path = path_str out_base @ ''.mp3''
           in if \<not> export_ok lib sound2 ogg_path ''ogg'' ''96k''
              then ([AudioExport ogg_path ''ogg'' ''96k'' sound2], Inl CouldntEncodeError)
              else if \<not> export_ok lib sound2 mp3_path ''mp3'' ''128k''
              then ([AudioExport ogg_path ''ogg'' ''96k'' sound2,
                     AudioExport mp3_path ''mp3'' ''128k'' sound2], Inl CouldntEncodeError)
              else ([AudioExport ogg_path ''ogg'' ''96k'' sound2,
                     AudioExport mp3_path ''mp3'' ''128k'' sound2],
                    Inr ogg_path)))"

text \<open>
  A Python \<open>dict\<close> as an association list in insertion order: \<open>d[k] = v\<close> replaces the
  value of a key that is present, where it stands, and appends a new key.
\<close>

fun dict_set :: "('k \<times> 'v) list \<Rightarrow> 'k \<Rightarrow> 'v \<Rightarrow> ('k \<times> 'v) list" where
  "dict_set [] k v = [(k, v)]"
| "dict_set ((k', v') # rest) k v =
     (if k' = k then (k', v) # rest else (k', v') # dict_set rest k v)"

text \<open>\<open>uuid.uuid4().hex\<close>: the 128 random bits as 32 lower-case hexadecimal digits.\<close>

definition hexdigits :: string where
  "hexdigits = ''0123456789abcdef''"

definition uuid_hex :: "128 word \<Rightarrow> string" where
  "uuid_hex u = map (\<lambda>i. hexdigits ! (unat (drop_bit (4 * i) u) mod 16)) (rev [0..<32])"

text \<open>
  What \<open>AudioSpriteTool._run\<close> does to the file system: opening the concat list for
  writing, writing one line to it, running ffmpeg from the concat list to the sprite,
  removing the concat list, writing the cue map as JSON.
\<close>

datatype 't sprite_effect =
    OpenWrite string
  | WriteLine string string
  | Ffmpeg string string
  | Unlink string
  | WriteText string "(string \<times> 't \<times> 't) list"

text \<open>
  The \<open>for p in paths\<close> loop.  \<open>ffprobe p\<close> is the duration that ffprobe prints for \<open>p\<close>,
  read as a float; \<open>None\<close> when the call or the conversion raises.
\<close>

fun sprite_loop ::
  "(string \<Rightarrow> 't option) \<Rightarrow> string \<Rightarrow> string list \<Rightarrow> (string \<times> 't \<times> 't) list \<Rightarrow> 't::plus
   \<Rightarrow> 't sprite_effect list \<Rightarrow> 't sprite_effect list \<times> (error + (string \<times> 't \<times> 't) list)" where
  "sprite_loop ffprobe concat_txt [] cue_map cursor eff = (eff, Inr cue_map)"
| "sprite_loop ffprobe concat_txt (p # ps) cue_map cursor eff =
     (let eff' = eff @ [WriteLine concat_txt (''file '' @ [CHR 0x27] @ p @ [CHR 0x27, CHR 0x0A])]
      in case ffprobe p of
           None \<Rightarrow> (eff', Inl (RuntimeError p))
         | Some dur \<Rightarrow>
             sprite_loop ffprobe concat_txt ps
               (dict_set cue_map (path_stem (Path p)) (cursor, dur)) (cursor + dur) eff')"

text \<open>
  \<open>AudioSpriteTool._run\<close>.  \<open>ffmpeg paths\<close> tells whether the concatenation of the listed
  clips exits with status 0; \<open>uuid4\<close> is the random identifier drawn for this call.
\<close>

definition AudioSpriteTool_run ::
  "(string \<Rightarrow> 't option) \<Rightarrow> (string list \<Rightarrow> bool) \<Rightarrow> 128 word \<Rightarrow> string list
   \<Rightarrow> ('t::{zero,plus}) sprite_effect list \<times> (error + string)" where
  "AudioSpriteTool_run ffprobe ffmpeg uuid4 paths =
     (if length paths < 2 then ([], Inl ValueError)
      else
        (let sprite_id = uuid_hex uuid4;
             concat_txt = path_str (joinpath AUD_DIR (sprite_id @ ''.txt''))
         in case sprite_loop ffprobe concat_txt paths [] 0 [OpenWrite concat_txt] of
              (eff, Inl e) \<Rightarrow> (eff, Inl e)
            | (eff, Inr cue_map) \<Rightarrow>
                (let sprite_path = joinpath AUD_DIR (sprite_id @ ''.ogg'');
                     eff1 = eff @ [Ffmpeg concat_txt (path_str sprite_path)]
                 in if \<not> ffmpeg paths then (eff1, Inl CalledProcessError)
                    else
                      (let eff2 = eff1 @ [Unlink concat_txt]
                       in case with_suffix sprite_path ''.json'' of
                            Inl e \<Rightarrow> (eff2, Inl e)
                          | Inr json_path \<Rightarrow>
                              (eff2 @ [WriteText (path_str json_path) cue_map],
                               Inr (path_str sprite_path))))))"

text \<open>The files an effect creates or overwrites.\<close>

fun written :: "'t sprite_effect \<Rightarrow> string list" where
  "written (OpenWrite f) = [f]"
| "written (WriteLine f l) = [f]"
| "written (Ffmpeg i out) = [out]"
| "written (Unlink f) = []"
| "written (WriteText f cm) = [f]"

text \<open>The cue maps that a run wrote, in order (one, on success).\<close>

fun cue_maps :: "'t sprite_effect list \<Rightarrow> (string \<times> 't \<times> 't) list list" where
  "cue_maps [] = []"
| "cue_maps (WriteText f cm # es) = cm # cue_maps es"
| "cue_maps (e # es) = cue_maps es"

text \<open>The key under which a clip enters the cue map.\<close>

definition clip_stem :: "string \<Rightarrow> string" where
  "clip_stem p = path_stem (Path p)"

text \<open>The value of \<open>cursor\<close> before each clip, for the given durations.\<close>

fun running_offsets :: "'t::plus \<Rightarrow> 't list \<Rightarrow> 't list" where
  "running_offsets cursor [] = []"
| "running_offsets cursor (d # ds) = cursor # running_offsets (cursor + d) ds"

section \<open>Git helper\<close>

text \<open>
  How one \<open>subprocess.check_output(["git", ...], text=True)\<close> call ends: exit status 0
  with the captured standard output; a non-zero exit status (\<open>CalledProcessError\<close>) with
  the captured standard output, which is the exception's \<open>output\<close>, and what the process
  wrote to standard error, which is not captured; or the process could not be started at
  all (\<open>OSError\<close>).
\<close>

datatype proc_result = Completed string | NonZeroExit string string | NotStarted

text \<open>
  \<open>GitOpsTool._run\<close>; \<open>git args\<close> is the outcome of running git with \<open>args\<close>, and
  \<open>str_strip\<close> is \<open>str.strip\<close>.
\<close>

definition GitOpsTool_run ::
  "(string \<Rightarrow> string) \<Rightarrow> (string list \<Rightarrow> proc_result) \<Rightarrow> string \<Rightarrow> error + string" where
  "GitOpsTool_run str_strip git commit_message =
     (case git [''add'', ''.''] of
        NotStarted \<Rightarrow> Inl OSError
      | NonZeroExit out err \<Rightarrow> Inr (''Git error: '' @ str_strip out)
      | Completed _ \<Rightarrow>
          (case git [''commit'', ''-m'', commit_message] of
             NotStarted \<Rightarrow> Inl OSError
           | NonZeroExit out err \<Rightarrow> Inr (''Git error: '' @ str_strip out)
           | Completed _ \<Rightarrow>
               (case git [''push''] of
                  NotStarted \<Rightarrow> Inl OSError
                | NonZeroExit out err \<Rightarrow> Inr ''Committed locally (no remote/push failed).''
                | Completed _ \<Rightarrow> Inr ''Committed & pushed.'')))"

section \<open>Reference notions and example inputs\<close>

text \<open>
  Python's \<open>round\<close> on a float: to the nearest integer, ties to the even one.  The
  code never calls it; the specification's height formula does.
\<close>

definition py_round :: "real \<Rightarrow> int" where
  "py_round x = (let f = \<lfloor>x\<rfloor> in
     if x - of_int f < 1 / 2 then f
     else if x - of_int f > 1 / 2 then f + 1
     else if even f then f else f + 1)"

text \<open>
  A Pillow with two decodable files, a 640 x 480 image and a 16384 x 16 banner.  Fitting
  and saving PNG succeed; an encoding takes 5000 bytes per quality point, and WebP
  refuses an image with a side above 16383 pixels.
\<close>

definition example_pillow :: pillow where
  "example_pillow = \<lparr>
     open_image = (\<lambda>p. if p = ''art/hero.png'' then Some \<lparr>width = 640, height = 480\<rparr>
                       else if p = ''art/banner.png'' then Some \<lparr>width = 16384, height = 16\<rparr>
                       else None),
     fit_ok = (\<lambda>src sz. True),
     save_ok = (\<lambda>variant path. True),
     encode = (\<lambda>im fmt q. if fmt = ''WEBP'' \<and> (16383 < width im \<or> 16383 < height im) then None
                           else Some (nat (5000 * q)))\<rparr>"


text \<open>Clip durations in seconds, as ffprobe reports them; ffmpeg succeeds.\<close>

definition example_ffprobe :: "string \<Rightarrow> real option" where
  "example_ffprobe = map_of
     [(''A.wav'', 2), (''B.wav'', 7 / 2), (''C.wav'', 1),
      (''sfx/hit.wav'', 2), (''ui/click.wav'', 7 / 2), (''ui/hit.wav'', 1)]"

definition example_ffmpeg :: "string list \<Rightarrow> bool" where
  "example_ffmpeg paths = True"

text \<open>
  A toy pydub: a sound is its average level in dBFS and its length in ms; every file
  decodes to a 1500 ms clip at -20 dBFS, and every export succeeds.
\<close>

definition example_pydub :: "(real \<times> nat, real) pydub" where
  "example_pydub = \<lparr>from_file = (\<lambda>p. Some (- 20, 1500)), dBFS = fst,
     apply_gain = (\<lambda>s g. (fst s + g, snd s)), strip_silence = (\<lambda>s len thresh. s),
     export_ok = (\<lambda>s path format bitrate. True)\<rparr>"

text \<open>A repository without a remote: staging and commit succeed, the push fails.\<close>

definition example_git :: "string list \<Rightarrow> proc_result" where
  "example_git args = (if args = [''push'']
     then NonZeroExit [] (''fatal: No configured push destination.'' @ [CHR 0x0A])
     else Completed [])"

text \<open>
  A repository with nothing to commit: the commit exits with status 1 and says so on
  standard output.
\<close>

definition example_git_clean :: "string list \<Rightarrow> proc_result" where
  "example_git_clean args = (if args = [''add'', ''.''] then Completed []
     else NonZeroExit (''nothing to commit, working tree clean'' @ [CHR 0x0A]) [])"

text \<open>
  A directory that is no git repository: \<open>git add .\<close> exits with status 128, prints
  nothing on standard output and its message on standard error.
\<close>

definition example_git_norepo :: "string list \<Rightarrow> proc_result" where
  "example_git_norepo args =
     NonZeroExit [] (''fatal: not a git repository (or any of the parent directories): .git''
                     @ [CHR 0x0A])"

text \<open>A machine without git: no git process can be started.\<close>

definition example_git_missing :: "string list \<Rightarrow> proc_result" where
  "example_git_missing args = NotStarted"

section \<open>Lemmas on strings and paths\<close>

declare compress_loop.simps [simp del]


lemma IMG_DIR_eq: "IMG_DIR = \<lparr>p_root = [], p_parts = [''assets'', ''images'']\<rparr>"
  by (simp add: IMG_DIR_def ASSET_DIR_def joinpath_def Path_def splitroot_def)

lemma AUD_DIR_eq: "AUD_DIR = \<lparr>p_root = [], p_parts = [''assets'', ''audio'']\<rparr>"
  by (simp add: AUD_DIR_def ASSET_DIR_def joinpath_def Path_def splitroot_def)

lemma split_on_no_sep: "sep \<notin> set s \<Longrightarrow> split_on sep s = [s]"
  by (induction s) auto

lemma split_on_pieces: "w \<in> set (split_on sep s) \<Longrightarrow> sep \<notin> set w"
  by (induction s arbitrary: w) (auto split: if_splits list.splits)

lemma Path_segment:
  assumes "CHR ''/'' \<notin> set s" "s \<noteq> []" "s \<noteq> ''.''"
  shows "Path s = \<lparr>p_root = [], p_parts = [s]\<rparr>"
proof -
  have "hd s \<noteq> CHR ''/''" using assms by (cases s) auto
  then show ?thesis using assms
    by (simp add: Path_def splitroot_def split_on_no_sep)
qed

lemma join_dir_segment:
  assumes "CHR ''/'' \<notin> set s" "s \<noteq> []" "s \<noteq> ''.''"
  shows "path_str (joinpath IMG_DIR s) = ''assets/images/'' @ s"
    and "path_str (joinpath AUD_DIR s) = ''assets/audio/'' @ s"
  using assms by (simp_all add: joinpath_def Path_segment IMG_DIR_eq AUD_DIR_eq path_str_def)

lemma in_dir_append:
  "CHR ''/'' \<notin> set s \<Longrightarrow> s \<noteq> [] \<Longrightarrow> in_dir d (d @ ''/'' @ s)"
  by (simp add: in_dir_def)

lemma path_name_no_slash: "CHR ''/'' \<notin> set (path_name (Path s))"
proof (cases "p_parts (Path s) = []")
  case True then show ?thesis by (simp add: path_name_def)
next
  case False
  then have "last (p_parts (Path s)) \<in> set (p_parts (Path s))" by simp
  then obtain rel where "last (p_parts (Path s)) \<in> set (split_on CHR ''/'' rel)"
    by (auto simp: Path_def Let_def split: prod.splits)
  then show ?thesis using False by (simp add: path_name_def split_on_pieces)
qed

lemma path_stem_no_slash: "CHR ''/'' \<notin> set (path_stem (Path s))"
  using path_name_no_slash[of s]
  by (auto simp: path_stem_def Let_def split: option.splits dest: in_set_takeD)

section \<open>Lemmas on the image tools\<close>

lemma py_int_truediv_nonneg: "0 \<le> a \<Longrightarrow> 0 < b \<Longrightarrow> py_int_truediv a b = a div b"
  by (cases "a = 0") (simp_all add: py_int_truediv_def)

lemma responsive_out_name:
  assumes "CHR ''/'' \<notin> set rest"
  shows "path_str (joinpath IMG_DIR (path_stem (Path p) @ CHR ''_'' # rest)) =
     ''assets/images/'' @ path_stem (Path p) @ CHR ''_'' # rest"
proof -
  have "CHR ''/'' \<notin> set (path_stem (Path p) @ CHR ''_'' # rest)"
    using assms path_stem_no_slash[of p] by simp
  moreover have "path_stem (Path p) @ CHR ''_'' # rest \<noteq> ''.''"
    by (cases "path_stem (Path p)") auto
  ultimately show ?thesis by (simp add: join_dir_segment(1))
qed

lemma responsive_run_ok:
  assumes "open_image lib png_path = Some src" "2 \<le> max_width"
    and "\<forall>sz. fit_ok lib src sz" "\<forall>variant path. save_ok lib variant path"
  shows "ImageResponsiveTool_run lib png_path max_width =
    ([ImageSave (''assets/images/'' @ path_stem (Path png_path) @ ''_169.png'') ''PNG'' None
        \<lparr>width = max_width, height = max_width * 9 div 16\<rparr>,
      ImageSave (''assets/images/'' @ path_stem (Path png_path) @ ''_32.png'') ''PNG'' None
        \<lparr>width = max_width, height = max_width * 2 div 3\<rparr>,
      ImageSave (''assets/images/'' @ path_stem (Path png_path) @ ''_11.png'') ''PNG'' None
        \<lparr>width = max_width, height = max_width\<rparr>],
     Inr [''assets/images/'' @ path_stem (Path png_path) @ ''_169.png'',
          ''assets/images/'' @ path_stem (Path png_path) @ ''_32.png'',
          ''assets/images/'' @ path_stem (Path png_path) @ ''_11.png''])"
proof -
  have h: "0 < max_width * 9 div 16" "0 < max_width * 2 div 3" using assms(2) by auto
  show ?thesis using assms h
    by (simp add: ImageResponsiveTool_run_def variants_def ImageOps_fit_def
        py_int_truediv_nonneg responsive_out_name Let_def)
qed

lemma responsive_run_Inr:
  assumes "ImageResponsiveTool_run lib png_path max_width = (saved, Inr out_paths)"
  shows "2 \<le> max_width"
    and "saved =
      [ImageSave (''assets/images/'' @ path_stem (Path png_path) @ ''_169.png'') ''PNG'' None
         \<lparr>width = max_width, height = max_width * 9 div 16\<rparr>,
       ImageSave (''assets/images/'' @ path_stem (Path png_path) @ ''_32.png'') ''PNG'' None
         \<lparr>width = max_width, height = max_width * 2 div 3\<rparr>,
       ImageSave (''assets/images/'' @ path_stem (Path png_path) @ ''_11.png'') ''PNG'' None
         \<lparr>width = max_width, height = max_width\<rparr>]"
    and "out_paths =
      [''assets/images/'' @ path_stem (Path png_path) @ ''_169.png'',
       ''assets/images/'' @ path_stem (Path png_path) @ ''_32.png'',
       ''assets/images/'' @ path_stem (Path png_path) @ ''_11.png'']"
proof -
  from assms obtain src where src: "open_image lib png_path = Some src"
    by (cases "open_image lib png_path") (auto simp: ImageResponsiveTool_run_def)
  show w: "2 \<le> max_width"
  proof (rule ccontr)
    assume "\<not> 2 \<le> max_width"
    then have "max_width \<le> 0 \<or> max_width = 1" by auto
    then have "max_width \<le> 0 \<or> py_int_truediv (max_width * 9) 16 \<le> 0"
      by (auto simp: py_int_truediv_def)
    then have "ImageOps_fit lib src (max_width, py_int_truediv (max_width * 9) 16) = Inl PillowError"
      by (auto simp: ImageOps_fit_def)
    then have "ImageResponsiveTool_run lib png_path max_width = ([], Inl PillowError)"
      using src by (simp add: ImageResponsiveTool_run_def variants_def)
    with assms show False by simp
  qed
  then have h: "0 < max_width * 9 div 16" "0 < max_width * 2 div 3" by auto
  have both: "saved =
      [ImageSave (''assets/images/'' @ path_stem (Path png_path) @ ''_169.png'') ''PNG'' None
         \<lparr>width = max_width, height = max_width * 9 div 16\<rparr>,
       ImageSave (''assets/images/'' @ path_stem (Path png_path) @ ''_32.png'') ''PNG'' None
         \<lparr>width = max_width, height = max_width * 2 div 3\<rparr>,
       ImageSave (''assets/images/'' @ path_stem (Path png_path) @ ''_11.png'') ''PNG'' None
         \<lparr>width = max_width, height = max_width\<rparr>] \<and>
    out_paths =
      [''assets/images/'' @ path_stem (Path png_path) @ ''_169.png'',
       ''assets/images/'' @ path_stem (Path png_path) @ ''_32.png'',
       ''assets/images/'' @ path_stem (Path png_path) @ ''_11.png'']"
    using assms src w h
    by (simp add: ImageResponsiveTool_run_def variants_def ImageOps_fit_def
        py_int_truediv_nonneg responsive_out_name Let_def split: if_splits)
  from both show "saved =
      [ImageSave (''assets/images/'' @ path_stem (Path png_path) @ ''_169.png'') ''PNG'' None
         \<lparr>width = max_width, height = max_width * 9 div 16\<rparr>,
       ImageSave (''assets/images/'' @ path_stem (Path png_path) @ ''_32.png'') ''PNG'' None
         \<lparr>width = max_width, height = max_width * 2 div 3\<rparr>,
       ImageSave (''assets/images/'' @ path_stem (Path png_path) @ ''_11.png'') ''PNG'' None
         \<lparr>width = max_width, height = max_width\<rparr>]" ..
  from both show "out_paths =
      [''assets/images/'' @ path_stem (Path png_path) @ ''_169.png'',
       ''assets/images/'' @ path_stem (Path png_path) @ ''_32.png'',
       ''assets/images/'' @ path_stem (Path png_path) @ ''_11.png'']" ..
qed













section \<open>Lemmas on the sprite builder\<close>

lemma dict_set_fresh: "k \<notin> fst ` set m \<Longrightarrow> dict_set m k v = m @ [(k, v)]"
  by (induction m) auto

lemma map_of_dict_set: "map_of (dict_set m k v) = (map_of m)(k \<mapsto> v)"
  by (induction m) (auto simp: fun_eq_iff)

lemma keys_dict_set: "fst ` set (dict_set m k v) = insert k (fst ` set m)"
  by (induction m) force+

lemma distinct_dict_set: "distinct (map fst m) \<Longrightarrow> distinct (map fst (dict_set m k v))"
  by (induction m) (auto simp: keys_dict_set)

lemma length_dict_set: "length (dict_set m k v) = (if k \<in> fst ` set m then length m else Suc (length m))"
  by (induction m) force+

lemma sprite_loop_Inr_probes:
  "sprite_loop ffprobe ct ps cm c eff = (eff', Inr cm') \<Longrightarrow> \<exists>durs. map ffprobe ps = map Some durs"
proof (induction ps arbitrary: cm c eff)
  case Nil then show ?case by simp
next
  case (Cons p ps)
  then obtain d where d: "ffprobe p = Some d" by (cases "ffprobe p") (auto simp: Let_def)
  with Cons.prems have "sprite_loop ffprobe ct ps (dict_set cm (path_stem (Path p)) (c, d)) (c + d)
      (eff @ [WriteLine ct (''file '' @ [CHR 0x27] @ p @ [CHR 0x27, CHR 0x0A])]) = (eff', Inr cm')"
    by (simp add: Let_def)
  from Cons.IH[OF this] obtain durs where "map ffprobe ps = map Some durs" by blast
  then have "map ffprobe (p # ps) = map Some (d # durs)" using d by simp
  then show ?case by blast
qed

lemma sprite_loop_not_ValueError:
  "snd (sprite_loop ffprobe ct ps cm c eff) \<noteq> Inl ValueError"
  by (induction ps arbitrary: cm c eff) (auto simp: Let_def split: option.splits)

lemma sprite_loop_ok:
  "map ffprobe ps = map Some durs \<Longrightarrow>
   sprite_loop ffprobe ct ps cm c eff =
     (eff @ map (\<lambda>p. WriteLine ct (''file '' @ [CHR 0x27] @ p @ [CHR 0x27, CHR 0x0A])) ps,
      Inr (foldl (\<lambda>m (k, v). dict_set m k v) cm
             (zip (map clip_stem ps) (zip (running_offsets c durs) durs))))"
proof (induction ps arbitrary: durs cm c eff)
  case Nil then show ?case by simp
next
  case (Cons p ps)
  then obtain d ds where durs: "durs = d # ds" by (cases durs) auto
  with Cons.prems have p: "ffprobe p = Some d" and ps: "map ffprobe ps = map Some ds" by auto
  show ?case using Cons.IH[OF ps] p
    by (simp add: durs Let_def clip_stem_def)
qed

lemma foldl_dict_set_distinct:
  "distinct (map fst es) \<Longrightarrow> fst ` set es \<inter> fst ` set m = {} \<Longrightarrow>
   foldl (\<lambda>m (k, v). dict_set m k v) m es = m @ es"
proof (induction es arbitrary: m)
  case Nil then show ?case by simp
next
  case (Cons e es)
  obtain k v where e: "e = (k, v)" by (cases e)
  have fresh: "k \<notin> fst ` set m" using Cons.prems e by auto
  have "fst ` set es \<inter> fst ` set (m @ [(k, v)]) = {}" using Cons.prems e by auto
  moreover have "distinct (map fst es)" using Cons.prems by simp
  ultimately have "foldl (\<lambda>m (k, v). dict_set m k v) (m @ [(k, v)]) es = (m @ [(k, v)]) @ es"
    by (rule Cons.IH[rotated])
  then show ?case using fresh e by (simp add: dict_set_fresh)
qed

lemma foldl_dict_set_keys:
  "fst ` set (foldl (\<lambda>m (k, v). dict_set m k v) m es) = fst ` set m \<union> fst ` set es"
proof (induction es arbitrary: m)
  case Nil then show ?case by simp
next
  case (Cons e es)
  obtain k v where e: "e = (k, v)" by (cases e)
  show ?case using Cons.IH[of "dict_set m k v"] by (simp add: e keys_dict_set)
qed

lemma foldl_dict_set_distinct_keys:
  "distinct (map fst m) \<Longrightarrow> distinct (map fst (foldl (\<lambda>m (k, v). dict_set m k v) m es))"
  by (induction es arbitrary: m) (auto simp: distinct_dict_set split: prod.splits)

lemma foldl_dict_set_map_of:
  "map_of (foldl (\<lambda>m (k, v). dict_set m k v) m es) = map_of m ++ map_of (rev es)"
  by (induction es arbitrary: m) (auto simp: map_of_dict_set split: prod.splits)

lemma map_of_rev_last_occurrence:
  "i < length es \<Longrightarrow> (\<forall>j. i < j \<and> j < length es \<longrightarrow> fst (es ! j) \<noteq> fst (es ! i)) \<Longrightarrow>
   map_of (rev es) (fst (es ! i)) = Some (snd (es ! i))"
proof (induction es arbitrary: i rule: rev_induct)
  case Nil then show ?case by simp
next
  case (snoc e es)
  show ?case
  proof (cases "i = length es")
    case True then show ?thesis by (cases e) simp
  next
    case False
    then have i: "i < length es" using snoc.prems by simp
    have ne: "fst e \<noteq> fst (es ! i)" using snoc.prems(2)[rule_format, of "length es"] i
      by (simp add: nth_append)
    have "\<forall>j. i < j \<and> j < length es \<longrightarrow> fst (es ! j) \<noteq> fst (es ! i)"
      using snoc.prems(2) i by (auto simp: nth_append split: if_splits)
    from snoc.IH[OF i this] show ?thesis using i ne by (cases e) (auto simp: nth_append)
  qed
qed

lemma length_running_offsets: "length (running_offsets c ds) = length ds"
  by (induction ds arbitrary: c) auto

lemma running_offsets_hd: "ds \<noteq> [] \<Longrightarrow> running_offsets c ds ! 0 = c"
  by (cases ds) auto

lemma running_offsets_Suc:
  "Suc i < length ds \<Longrightarrow> running_offsets c ds ! Suc i = running_offsets c ds ! i + ds ! i"
proof (induction ds arbitrary: c i)
  case Nil then show ?case by simp
next
  case (Cons d ds)
  show ?case
  proof (cases i)
    case 0
    then show ?thesis using Cons.prems by (cases ds) auto
  next
    case (Suc j)
    then show ?thesis using Cons.prems Cons.IH[of j "c + d"] by simp
  qed
qed

lemma running_offsets_sorted:
  fixes c :: "'t::{plus,zero,preorder}"
  assumes "\<forall>(x::'t) d. 0 \<le> d \<longrightarrow> x \<le> x + d" "\<forall>d\<in>set ds. 0 \<le> d"
  shows "sorted_wrt (\<le>) (running_offsets c ds) \<and> (\<forall>x\<in>set (running_offsets c ds). c \<le> x)"
  using assms(2)
proof (induction ds arbitrary: c)
  case Nil then show ?case by simp
next
  case (Cons d ds)
  have step: "c \<le> c + d" using assms(1) Cons.prems by simp
  have ih: "sorted_wrt (\<le>) (running_offsets (c + d) ds) \<and> (\<forall>x\<in>set (running_offsets (c + d) ds). c + d \<le> x)"
    using Cons by simp
  then have "\<forall>x\<in>set (running_offsets (c + d) ds). c \<le> x"
    using step order_trans by blast
  then show ?case using ih by simp
qed

lemma floor_ratio: "\<lfloor>real_of_int W * real_of_int a / real_of_int b\<rfloor> = W * a div b"
  by (metis floor_divide_of_int_eq of_int_mult)

lemma uuid_hex_chars: "c \<in> set (uuid_hex u) \<Longrightarrow> c \<in> set hexdigits"
proof -
  have "hexdigits ! (n mod 16) \<in> set hexdigits" for n
    by (rule nth_mem) (simp add: hexdigits_def)
  then show "c \<in> set (uuid_hex u) \<Longrightarrow> c \<in> set hexdigits"
    by (auto simp: uuid_hex_def)
qed

lemma length_uuid_hex: "length (uuid_hex u) = 32"
  by (simp add: uuid_hex_def)

lemma uuid_segment:
  assumes "CHR ''/'' \<notin> set ext"
  shows "path_str (joinpath AUD_DIR (uuid_hex u @ CHR ''.'' # ext)) = ''assets/audio/'' @ uuid_hex u @ CHR ''.'' # ext"
    and "joinpath AUD_DIR (uuid_hex u @ CHR ''.'' # ext) = \<lparr>p_root = [], p_parts = [''assets'', ''audio'', uuid_hex u @ CHR ''.'' # ext]\<rparr>"
proof -
  have a: "CHR ''/'' \<notin> set (uuid_hex u)" using uuid_hex_chars[of "CHR ''/''" u] by (auto simp: hexdigits_def)
  have b: "uuid_hex u \<noteq> []" using length_uuid_hex[of u] by auto
  have c: "CHR ''/'' \<notin> set (uuid_hex u @ CHR ''.'' # ext)" using a assms by simp
  have d: "uuid_hex u @ CHR ''.'' # ext \<noteq> ''.''" using b by (cases "uuid_hex u") auto
  show "path_str (joinpath AUD_DIR (uuid_hex u @ CHR ''.'' # ext)) = ''assets/audio/'' @ uuid_hex u @ CHR ''.'' # ext"
    using c d by (simp add: join_dir_segment(2))
  show "joinpath AUD_DIR (uuid_hex u @ CHR ''.'' # ext) = \<lparr>p_root = [], p_parts = [''assets'', ''audio'', uuid_hex u @ CHR ''.'' # ext]\<rparr>"
    using c d by (simp add: joinpath_def Path_segment AUD_DIR_eq)
qed



section \<open>Lemmas on the compressor's run\<close>


lemma compress_run_unfold:
  "ImageCompressTool_run str_upper lib png_path fmt t =
     (if str_upper fmt \<notin> {''AVIF'', ''WEBP''} then ([], Inl ValueError)
      else case open_image lib png_path of
        None \<Rightarrow> ([], Inl DecodeError)
      | Some im \<Rightarrow>
          (case with_suffix (Path png_path) (''.'' @ lower (str_upper fmt)) of
             Inl e \<Rightarrow> ([], Inl e)
           | Inr out_file \<Rightarrow>
               (map (\<lambda>q. ImageSave (path_str out_file) (str_upper fmt) (Some q) im)
                  (fst (compress_loop (encode lib im (str_upper fmt)) t 80)),
                case snd (compress_loop (encode lib im (str_upper fmt)) t 80) of
                  Some e \<Rightarrow> Inl e
                | None \<Rightarrow> Inr (path_str out_file))))"
  unfolding ImageCompressTool_run_def Let_def case_prod_beta ..



section \<open>Lemmas on the sprite builder's run\<close>

lemma rfind_None: "c \<notin> set ys \<Longrightarrow> rfind c ys = None"
  by (induction ys) auto

lemma rfind_append: "c \<notin> set ys \<Longrightarrow> rfind c (xs @ c # ys) = Some (length xs)"
  by (induction xs) (auto simp: rfind_None)

lemma cue_maps_append: "cue_maps (xs @ ys) = cue_maps xs @ cue_maps ys"
  by (induction xs rule: cue_maps.induct) auto

lemma cue_maps_lines: "cue_maps (map (\<lambda>p. WriteLine ct (f p)) ps) = []"
  by (induction ps) auto

lemma sprite_json_path:
  "with_suffix (joinpath AUD_DIR (uuid_hex u @ ''.ogg'')) ''.json'' =
     Inr \<lparr>p_root = [], p_parts = [''assets'', ''audio'', uuid_hex u @ ''.json'']\<rparr>"
proof -
  have seg: "joinpath AUD_DIR (uuid_hex u @ ''.ogg'') =
      \<lparr>p_root = [], p_parts = [''assets'', ''audio'', uuid_hex u @ ''.ogg'']\<rparr>"
    using uuid_segment(2)[of "''ogg''" u] by simp
  have rf: "rfind CHR ''.'' (uuid_hex u @ ''.ogg'') = Some 32"
    using rfind_append[of "CHR ''.''" "''ogg''" "uuid_hex u"] by (simp add: length_uuid_hex)
  have ne: "uuid_hex u \<noteq> []" using length_uuid_hex[of u] by auto
  show ?thesis unfolding seg
    using rf ne by (simp add: with_suffix_def path_name_def path_suffix_def length_uuid_hex)
qed

lemma sprite_run_ok:
  assumes "2 \<le> length paths" "map ffprobe paths = map Some durs" "ffmpeg paths"
  shows "AudioSpriteTool_run ffprobe ffmpeg u paths =
    (OpenWrite (''assets/audio/'' @ uuid_hex u @ ''.txt'') #
     map (\<lambda>p. WriteLine (''assets/audio/'' @ uuid_hex u @ ''.txt'')
                 (''file '' @ [CHR 0x27] @ p @ [CHR 0x27, CHR 0x0A])) paths @
     [Ffmpeg (''assets/audio/'' @ uuid_hex u @ ''.txt'') (''assets/audio/'' @ uuid_hex u @ ''.ogg''),
      Unlink (''assets/audio/'' @ uuid_hex u @ ''.txt''),
      WriteText (''assets/audio/'' @ uuid_hex u @ ''.json'')
        (foldl (\<lambda>m (k, v). dict_set m k v) []
           (zip (map clip_stem paths) (zip (running_offsets 0 durs) durs)))],
     Inr (''assets/audio/'' @ uuid_hex u @ ''.ogg''))"
proof -
  have ptxt: "path_str (joinpath AUD_DIR (uuid_hex u @ ''.txt'')) = ''assets/audio/'' @ uuid_hex u @ ''.txt''"
    and ogg: "path_str (joinpath AUD_DIR (uuid_hex u @ ''.ogg'')) = ''assets/audio/'' @ uuid_hex u @ ''.ogg''"
    using uuid_segment(1)[of "''txt''" u] uuid_segment(1)[of "''ogg''" u] by simp_all
  have loop: "sprite_loop ffprobe (''assets/audio/'' @ uuid_hex u @ ''.txt'') paths [] 0
        [OpenWrite (''assets/audio/'' @ uuid_hex u @ ''.txt'')] =
      ([OpenWrite (''assets/audio/'' @ uuid_hex u @ ''.txt'')] @
         map (\<lambda>p. WriteLine (''assets/audio/'' @ uuid_hex u @ ''.txt'')
                 (''file '' @ [CHR 0x27] @ p @ [CHR 0x27, CHR 0x0A])) paths,
       Inr (foldl (\<lambda>m (k, v). dict_set m k v) []
           (zip (map clip_stem paths) (zip (running_offsets 0 durs) durs))))"
    by (rule sprite_loop_ok[OF assms(2)])
  show ?thesis
    unfolding AudioSpriteTool_run_def Let_def ptxt ogg sprite_json_path loop
    using assms(1,3) by (simp add: path_str_def)
qed

lemma sprite_run_Inr:
  assumes "snd (AudioSpriteTool_run ffprobe ffmpeg u paths) = Inr sp"
  shows "2 \<le> length paths" "ffmpeg paths" "\<exists>durs. map ffprobe paths = map Some durs"
proof -
  show len: "2 \<le> length paths"
    using assms by (cases "length paths < 2") (auto simp: AudioSpriteTool_run_def)
  obtain eff r where loop: "sprite_loop ffprobe (path_str (joinpath AUD_DIR (uuid_hex u @ ''.txt'')))
      paths [] 0 [OpenWrite (path_str (joinpath AUD_DIR (uuid_hex u @ ''.txt'')))] = (eff, r)"
    by (cases "sprite_loop ffprobe (path_str (joinpath AUD_DIR (uuid_hex u @ ''.txt'')))
      paths [] 0 [OpenWrite (path_str (joinpath AUD_DIR (uuid_hex u @ ''.txt'')))]")
  from assms len loop obtain cm where r: "r = Inr cm"
    by (cases r) (auto simp: AudioSpriteTool_run_def Let_def)
  from sprite_loop_Inr_probes[OF loop[unfolded r]]
  show "\<exists>durs. map ffprobe paths = map Some durs" .
  show "ffmpeg paths"
    using assms len loop r
    by (cases "ffmpeg paths") (auto simp: AudioSpriteTool_run_def Let_def)
qed

lemma sprite_run_not_ValueError:
  assumes "2 \<le> length paths"
  shows "snd (AudioSpriteTool_run ffprobe ffmpeg u paths) \<noteq> Inl ValueError"
proof -
  obtain eff r where loop: "sprite_loop ffprobe (path_str (joinpath AUD_DIR (uuid_hex u @ ''.txt'')))
      paths [] 0 [OpenWrite (path_str (joinpath AUD_DIR (uuid_hex u @ ''.txt'')))] = (eff, r)"
    by (cases "sprite_loop ffprobe (path_str (joinpath AUD_DIR (uuid_hex u @ ''.txt'')))
      paths [] 0 [OpenWrite (path_str (joinpath AUD_DIR (uuid_hex u @ ''.txt'')))]")
  have r: "r \<noteq> Inl ValueError"
    using sprite_loop_not_ValueError[of ffprobe "path_str (joinpath AUD_DIR (uuid_hex u @ ''.txt''))"
        paths "[]" 0 "[OpenWrite (path_str (joinpath AUD_DIR (uuid_hex u @ ''.txt'')))]"] loop
    by simp
  show ?thesis using assms loop r
    by (cases r) (auto simp: AudioSpriteTool_run_def Let_def sprite_json_path)
qed

lemma example_stems:
  "clip_stem ''A.wav'' = ''A''" "clip_stem ''B.wav'' = ''B''" "clip_stem ''C.wav'' = ''C''"
  "clip_stem ''sfx/hit.wav'' = ''hit''" "clip_stem ''ui/click.wav'' = ''click''"
  "clip_stem ''ui/hit.wav'' = ''hit''"
  by (simp_all add: clip_stem_def path_stem_def path_name_def Path_def splitroot_def)

lemma example_abc_run:
  "AudioSpriteTool_run example_ffprobe example_ffmpeg 0 [''A.wav'', ''B.wav'', ''C.wav''] =
    (OpenWrite (''assets/audio/'' @ uuid_hex 0 @ ''.txt'') #
     map (\<lambda>p. WriteLine (''assets/audio/'' @ uuid_hex 0 @ ''.txt'')
                 (''file '' @ [CHR 0x27] @ p @ [CHR 0x27, CHR 0x0A])) [''A.wav'', ''B.wav'', ''C.wav''] @
     [Ffmpeg (''assets/audio/'' @ uuid_hex 0 @ ''.txt'') (''assets/audio/'' @ uuid_hex 0 @ ''.ogg''),
      Unlink (''assets/audio/'' @ uuid_hex 0 @ ''.txt''),
      WriteText (''assets/audio/'' @ uuid_hex 0 @ ''.json'')
        [(''A'', 0, 2), (''B'', 2, 7 / 2), (''C'', 11 / 2, 1)]],
     Inr (''assets/audio/'' @ uuid_hex 0 @ ''.ogg''))"
proof -
  have probes: "map example_ffprobe [''A.wav'', ''B.wav'', ''C.wav''] = map Some [2, 7 / 2, 1]"
    by (simp add: example_ffprobe_def)
  have "foldl (\<lambda>m (k, v). dict_set m k v) []
      (zip (map clip_stem [''A.wav'', ''B.wav'', ''C.wav''])
         (zip (running_offsets 0 [2, 7 / 2, 1 :: real]) [2, 7 / 2, 1])) =
      [(''A'', 0, 2), (''B'', 2, 7 / 2), (''C'', 11 / 2, 1)]"
    by (simp add: example_stems)
  then show ?thesis
    using sprite_run_ok[where paths="[''A.wav'', ''B.wav'', ''C.wav'']" and ffprobe=example_ffprobe
        and durs="[2, 7 / 2, 1]" and ffmpeg=example_ffmpeg and u=0] probes
    by (simp add: example_ffmpeg_def)
qed

lemma example_dup_run:
  "AudioSpriteTool_run example_ffprobe example_ffmpeg 0
      [''sfx/hit.wav'', ''ui/click.wav'', ''ui/hit.wav''] =
    (OpenWrite (''assets/audio/'' @ uuid_hex 0 @ ''.txt'') #
     map (\<lambda>p. WriteLine (''assets/audio/'' @ uuid_hex 0 @ ''.txt'')
                 (''file '' @ [CHR 0x27] @ p @ [CHR 0x27, CHR 0x0A]))
       [''sfx/hit.wav'', ''ui/click.wav'', ''ui/hit.wav''] @
     [Ffmpeg (''assets/audio/'' @ uuid_hex 0 @ ''.txt'') (''assets/audio/'' @ uuid_hex 0 @ ''.ogg''),
      Unlink (''assets/audio/'' @ uuid_hex 0 @ ''.txt''),
      WriteText (''assets/audio/'' @ uuid_hex 0 @ ''.json'')
        [(''hit'', 11 / 2, 1), (''click'', 2, 7 / 2)]],
     Inr (''assets/audio/'' @ uuid_hex 0 @ ''.ogg''))"
proof -
  have probes: "map example_ffprobe [''sfx/hit.wav'', ''ui/click.wav'', ''ui/hit.wav''] =
      map Some [2, 7 / 2, 1]"
    by (simp add: example_ffprobe_def)
  have "foldl (\<lambda>m (k, v). dict_set m k v) []
      (zip (map clip_stem [''sfx/hit.wav'', ''ui/click.wav'', ''ui/hit.wav''])
         (zip (running_offsets 0 [2, 7 / 2, 1 :: real]) [2, 7 / 2, 1])) =
      [(''hit'', 11 / 2, 1), (''click'', 2, 7 / 2)]"
    by (simp add: example_stems)
  then show ?thesis
    using sprite_run_ok[where paths="[''sfx/hit.wav'', ''ui/click.wav'', ''ui/hit.wav'']"
        and ffprobe=example_ffprobe and durs="[2, 7 / 2, 1]" and ffmpeg=example_ffmpeg and u=0] probes
    by (simp add: example_ffmpeg_def)
qed

section \<open>The example images\<close>

lemma example_hero:
  "open_image example_pillow ''art/hero.png'' = Some \<lparr>width = 640, height = 480\<rparr>"
  "path_name (Path ''art/hero.png'') \<noteq> []"
  "path_stem (Path ''art/hero.png'') = ''hero''"
  "ascii_upper ''avif'' \<in> {''AVIF'', ''WEBP''}"
  "\<forall>sz. fit_ok example_pillow src sz"
  "\<forall>variant path. save_ok example_pillow variant path"
  by (simp_all add: example_pillow_def path_name_def path_stem_def Path_def splitroot_def
      ascii_upper_def upper_char_def ascii_lowercase_def ascii_uppercase_def)


lemma example_codecs:
  "ascii_upper ''avif'' = ''AVIF''" "ascii_upper ''webp'' = ''WEBP''"
  "lower ''AVIF'' = ''avif''" "lower ''WEBP'' = ''webp''"
  by (simp_all add: ascii_upper_def upper_char_def lower_def lower_char_def
      ascii_lowercase_def ascii_uppercase_def)

lemma example_out_files:
  "with_suffix (Path ''art/hero.png'') ''.avif'' =
     Inr \<lparr>p_root = [], p_parts = [''art'', ''hero.avif'']\<rparr>"
  "with_suffix (Path ''art/banner.png'') ''.webp'' =
     Inr \<lparr>p_root = [], p_parts = [''art'', ''banner.webp'']\<rparr>"
  "path_str \<lparr>p_root = [], p_parts = [''art'', ''hero.avif'']\<rparr> = ''art/hero.avif''"
  "path_str \<lparr>p_root = [], p_parts = [''art'', ''banner.webp'']\<rparr> = ''art/banner.webp''"
  by (simp_all add: Path_def splitroot_def with_suffix_def path_name_def path_suffix_def
      path_str_def)

lemma example_hero_1000:
  "ImageResponsiveTool_run example_pillow ''art/hero.png'' 1000 =
     ([ImageSave ''assets/images/hero_169.png'' ''PNG'' None \<lparr>width = 1000, height = 562\<rparr>,
       ImageSave ''assets/images/hero_32.png'' ''PNG'' None \<lparr>width = 1000, height = 666\<rparr>,
       ImageSave ''assets/images/hero_11.png'' ''PNG'' None \<lparr>width = 1000, height = 1000\<rparr>],
      Inr [''assets/images/hero_169.png'', ''assets/images/hero_32.png'',
           ''assets/images/hero_11.png''])"
  using responsive_run_ok[of example_pillow "''art/hero.png''" "\<lparr>width = 640, height = 480\<rparr>" 1000]
    example_hero(1,5,6)
  by (simp add: example_hero(3))

lemma example_hero_1024:
  "ImageResponsiveTool_run example_pillow ''art/hero.png'' 1024 =
     ([ImageSave ''assets/images/hero_169.png'' ''PNG'' None \<lparr>width = 1024, height = 576\<rparr>,
       ImageSave ''assets/images/hero_32.png'' ''PNG'' None \<lparr>width = 1024, height = 682\<rparr>,
       ImageSave ''assets/images/hero_11.png'' ''PNG'' None \<lparr>width = 1024, height = 1024\<rparr>],
      Inr [''assets/images/hero_169.png'', ''assets/images/hero_32.png'',
           ''assets/images/hero_11.png''])"
  using responsive_run_ok[of example_pillow "''art/hero.png''" "\<lparr>width = 640, height = 480\<rparr>" 1024]
    example_hero(1,5,6)
  by (simp add: example_hero(3))

lemma example_compress_run:
  "ImageCompressTool_run ascii_upper example_pillow ''art/hero.png'' ''avif'' 200 =
     (map (\<lambda>q. ImageSave ''art/hero.avif'' ''AVIF'' (Some q) \<lparr>width = 640, height = 480\<rparr>)
        [80, 70, 60, 50, 40],
      Inr ''art/hero.avif'')"
proof -
  have loop: "compress_loop (encode example_pillow \<lparr>width = 640, height = 480\<rparr> ''AVIF'') 200 80 =
      ([80, 70, 60, 50, 40], None)"
    by (simp add: compress_loop.simps example_pillow_def)
  show ?thesis
    unfolding compress_run_unfold example_codecs example_hero(1)
    by (simp add: example_out_files loop)
qed



section \<open>Image Responsive Generator\<close>

text \<open>
  Claim C3, as amended.  Whenever the generator returns, the three variants it saved, in
  the order 16:9, 3:2, 1:1, all have the width \<open>max_width\<close> (so none is wider than it),
  and their heights are \<open>max_width * ratio_h / ratio_w\<close> rounded down to an integer, which
  is what \<open>int(...)\<close> does to the quotient; the heights are not the rounded quotients.
\<close>

theorem responsive_heights_truncated:
  assumes "ImageResponsiveTool_run lib png_path max_width = (saved, Inr out_paths)"
  shows "map (\<lambda>s. width (save_image s)) saved = [max_width, max_width, max_width] \<and>
         (\<forall>s\<in>set saved. width (save_image s) \<le> max_width) \<and>
         map (\<lambda>s. height (save_image s)) saved =
           [\<lfloor>real_of_int max_width * 9 / 16\<rfloor>,
            \<lfloor>real_of_int max_width * 2 / 3\<rfloor>,
            \<lfloor>real_of_int max_width * 1 / 1\<rfloor>]"
proof -
  have fl: "\<lfloor>real_of_int max_width * 9 / 16\<rfloor> = max_width * 9 div 16"
    "\<lfloor>real_of_int max_width * 2 / 3\<rfloor> = max_width * 2 div 3"
    using floor_ratio[of max_width 9 16] floor_ratio[of max_width 2 3] by simp_all
  show ?thesis unfolding responsive_run_Inr(2)[OF assms] by (simp add: fl)
qed

theorem responsive_heights_truncated_witness:
  "ImageResponsiveTool_run example_pillow ''art/hero.png'' 1000 =
     ([ImageSave ''assets/images/hero_169.png'' ''PNG'' None \<lparr>width = 1000, height = 562\<rparr>,
       ImageSave ''assets/images/hero_32.png'' ''PNG'' None \<lparr>width = 1000, height = 666\<rparr>,
       ImageSave ''assets/images/hero_11.png'' ''PNG'' None \<lparr>width = 1000, height = 1000\<rparr>],
      Inr [''assets/images/hero_169.png'', ''assets/images/hero_32.png'',
           ''assets/images/hero_11.png'']) \<and>
   map (\<lambda>s. height (save_image s))
     [ImageSave ''assets/images/hero_169.png'' ''PNG'' None \<lparr>width = 1000, height = 562\<rparr>,
      ImageSave ''assets/images/hero_32.png'' ''PNG'' None \<lparr>width = 1000, height = 666\<rparr>,
      ImageSave ''assets/images/hero_11.png'' ''PNG'' None \<lparr>width = 1000, height = 1000\<rparr>] =
     [\<lfloor>real_of_int 1000 * 9 / 16\<rfloor>, \<lfloor>real_of_int 1000 * 2 / 3\<rfloor>, \<lfloor>real_of_int 1000 * 1 / 1\<rfloor>]"
  using responsive_heights_truncated[OF example_hero_1000] example_hero_1000 by blast

text \<open>
  Claim C3 as stated fails: for the 3:2 variant of width 1000 the generator picks the
  height 666, while \<open>round(1000 * 2 / 3)\<close> is 667.
\<close>

theorem responsive_height_not_rounded:
  "height (save_image (fst (ImageResponsiveTool_run example_pillow ''art/hero.png'' 1000) ! 1)) \<noteq>
   py_round (real_of_int
     (width (save_image (fst (ImageResponsiveTool_run example_pillow ''art/hero.png'' 1000) ! 1)))
     * 2 / 3)"
proof -
  have v: "fst (ImageResponsiveTool_run example_pillow ''art/hero.png'' 1000) ! 1 =
      ImageSave ''assets/images/hero_32.png'' ''PNG'' None \<lparr>width = 1000, height = 666\<rparr>"
    by (simp add: example_hero_1000)
  have r: "py_round (real_of_int 1000 * 2 / 3) = 667"
    by (simp add: py_round_def Let_def)
  show ?thesis unfolding v using r by simp
qed

text \<open>
  Claim C9.  Whenever the generator returns, it has saved exactly three variants, at
  the paths it returns, each of width exactly \<open>max_width\<close>, for every source that decodes
  and every \<open>max_width\<close>: the width of the source plays no part, so a narrower source is
  scaled up.
\<close>

theorem responsive_width_exact:
  assumes "ImageResponsiveTool_run lib png_path max_width = (saved, Inr out_paths)"
  shows "length saved = 3 \<and> map save_path saved = out_paths \<and>
         (\<forall>s\<in>set saved. width (save_image s) = max_width)"
  unfolding responsive_run_Inr(2)[OF assms] responsive_run_Inr(3)[OF assms] by simp

theorem responsive_width_exact_witness:
  "open_image example_pillow ''art/hero.png'' = Some \<lparr>width = 640, height = 480\<rparr> \<and>
   ImageResponsiveTool_run example_pillow ''art/hero.png'' 1024 =
     ([ImageSave ''assets/images/hero_169.png'' ''PNG'' None \<lparr>width = 1024, height = 576\<rparr>,
       ImageSave ''assets/images/hero_32.png'' ''PNG'' None \<lparr>width = 1024, height = 682\<rparr>,
       ImageSave ''assets/images/hero_11.png'' ''PNG'' None \<lparr>width = 1024, height = 1024\<rparr>],
      Inr [''assets/images/hero_169.png'', ''assets/images/hero_32.png'',
           ''assets/images/hero_11.png'']) \<and>
   length
     [ImageSave ''assets/images/hero_169.png'' ''PNG'' None \<lparr>width = 1024, height = 576\<rparr>,
      ImageSave ''assets/images/hero_32.png'' ''PNG'' None \<lparr>width = 1024, height = 682\<rparr>,
      ImageSave ''assets/images/hero_11.png'' ''PNG'' None \<lparr>width = 1024, height = 1024\<rparr>] = 3 \<and>
   list_all (\<lambda>s. width (save_image s) = 1024)
     [ImageSave ''assets/images/hero_169.png'' ''PNG'' None \<lparr>width = 1024, height = 576\<rparr>,
      ImageSave ''assets/images/hero_32.png'' ''PNG'' None \<lparr>width = 1024, height = 682\<rparr>,
      ImageSave ''assets/images/hero_11.png'' ''PNG'' None \<lparr>width = 1024, height = 1024\<rparr>]"
  using responsive_width_exact[OF example_hero_1024] example_hero_1024 example_hero(1)
  unfolding list_all_iff by blast

section \<open>Image Compressor\<close>







section \<open>Audio Sprite Builder\<close>

text \<open>
  Claim C1, as amended.  When the builder returns and the file name stems of the clips
  are pairwise distinct, the cue map it writes has one entry per clip, in argument order,
  keyed by the clip's stem and holding the offset and the probed duration.  The first
  offset is 0 and every further offset is the offset before it plus the duration before
  it, computed by the very addition the code performs.  The offsets are non-decreasing
  when no duration is negative, for any number type on which adding a non-negative
  number does not decrease a value (which holds for floats).
\<close>

theorem sprite_cue_map_contiguous:
  fixes ffprobe :: "string \<Rightarrow> 't::{zero,plus,preorder} option"
  assumes "snd (AudioSpriteTool_run ffprobe ffmpeg uuid4 paths) = Inr sprite"
    and "distinct (map clip_stem paths)"
  shows "\<exists>durs cm.
      map ffprobe paths = map Some durs \<and>
      cue_maps (fst (AudioSpriteTool_run ffprobe ffmpeg uuid4 paths)) = [cm] \<and>
      map fst cm = map clip_stem paths \<and>
      map (snd \<circ> snd) cm = durs \<and>
      fst (snd (cm ! 0)) = 0 \<and>
      (\<forall>i. Suc i < length cm \<longrightarrow>
         fst (snd (cm ! Suc i)) = fst (snd (cm ! i)) + snd (snd (cm ! i))) \<and>
      ((\<forall>(x::'t) d. 0 \<le> d \<longrightarrow> x \<le> x + d) \<and> (\<forall>d\<in>set durs. 0 \<le> d) \<longrightarrow>
         sorted_wrt (\<le>) (map (fst \<circ> snd) cm))"
proof -
  from sprite_run_Inr[OF assms(1)] obtain durs where
    len: "2 \<le> length paths" and ff: "ffmpeg paths" and durs: "map ffprobe paths = map Some durs"
    by blast
  have ld: "length durs = length paths" using durs by (metis length_map)
  let ?offs = "running_offsets 0 durs"
  let ?es = "zip (map clip_stem paths) (zip ?offs durs)"
  have keys: "map fst ?es = map clip_stem paths"
    by (simp add: ld length_running_offsets)
  have cm: "foldl (\<lambda>m (k, v). dict_set m k v) [] ?es = ?es"
    using foldl_dict_set_distinct[of ?es "[]"] assms(2) keys by simp
  have run: "cue_maps (fst (AudioSpriteTool_run ffprobe ffmpeg uuid4 paths)) = [?es]"
    using sprite_run_ok[where paths=paths and ffprobe=ffprobe and durs=durs and ffmpeg=ffmpeg
        and u=uuid4] len durs ff
    by (simp add: cue_maps_append cue_maps_lines cm)
  have vals: "map snd ?es = zip ?offs durs"
    by (simp add: ld length_running_offsets)
  have offs: "map (fst \<circ> snd) ?es = ?offs"
  proof -
    have "map (fst \<circ> snd) ?es = map fst (map snd ?es)" by simp
    also have "\<dots> = ?offs" unfolding vals by (simp add: length_running_offsets)
    finally show ?thesis .
  qed
  have dur: "map (snd \<circ> snd) ?es = durs"
  proof -
    have "map (snd \<circ> snd) ?es = map snd (map snd ?es)" by simp
    also have "\<dots> = durs" unfolding vals by (simp add: length_running_offsets)
    finally show ?thesis .
  qed
  have nonempty: "durs \<noteq> []" using len ld by auto
  have les: "length ?es = length durs" by (simp add: ld length_running_offsets)
  have lp: "0 < length paths" using len by linarith
  have "?es ! 0 = (clip_stem (paths ! 0), ?offs ! 0, durs ! 0)"
    using lp by (simp add: ld length_running_offsets)
  then have first: "fst (snd (?es ! 0)) = 0"
    using running_offsets_hd[OF nonempty, of 0] by simp
  have step: "\<forall>i. Suc i < length ?es \<longrightarrow>
      fst (snd (?es ! Suc i)) = fst (snd (?es ! i)) + snd (snd (?es ! i))"
  proof (intro allI impI)
    fix i
    assume "Suc i < length ?es"
    then have i: "Suc i < length durs" using les by simp
    then have "?es ! i = (clip_stem (paths ! i), ?offs ! i, durs ! i)"
      and "?es ! Suc i = (clip_stem (paths ! Suc i), ?offs ! Suc i, durs ! Suc i)"
      by (simp_all add: ld length_running_offsets)
    then show "fst (snd (?es ! Suc i)) = fst (snd (?es ! i)) + snd (snd (?es ! i))"
      using running_offsets_Suc[OF i, of 0] by simp
  qed
  have mono: "(\<forall>(x::'t) d. 0 \<le> d \<longrightarrow> x \<le> x + d) \<and> (\<forall>d\<in>set durs. 0 \<le> d) \<longrightarrow>
      sorted_wrt (\<le>) (map (fst \<circ> snd) ?es)"
    unfolding offs using running_offsets_sorted[of durs 0] by blast
  show ?thesis
    by (intro exI[of _ durs] exI[of _ ?es] conjI) (rule durs run keys dur first step mono)+
qed

theorem sprite_cue_map_contiguous_witness:
  "snd (AudioSpriteTool_run example_ffprobe example_ffmpeg 0 [''A.wav'', ''B.wav'', ''C.wav'']) =
     Inr (''assets/audio/'' @ uuid_hex 0 @ ''.ogg'') \<and>
   distinct (map clip_stem [''A.wav'', ''B.wav'', ''C.wav'']) \<and>
   cue_maps (fst (AudioSpriteTool_run example_ffprobe example_ffmpeg 0
       [''A.wav'', ''B.wav'', ''C.wav''])) =
     [[(''A'', 0, 2), (''B'', 2, 7 / 2), (''C'', 11 / 2, 1)]] \<and>
   (\<exists>durs cm.
      map example_ffprobe [''A.wav'', ''B.wav'', ''C.wav''] = map Some durs \<and>
      cue_maps (fst (AudioSpriteTool_run example_ffprobe example_ffmpeg 0
          [''A.wav'', ''B.wav'', ''C.wav''])) = [cm] \<and>
      map fst cm = map clip_stem [''A.wav'', ''B.wav'', ''C.wav''] \<and>
      map (snd \<circ> snd) cm = durs \<and>
      fst (snd (cm ! 0)) = 0 \<and>
      (\<forall>i. Suc i < length cm \<longrightarrow>
         fst (snd (cm ! Suc i)) = fst (snd (cm ! i)) + snd (snd (cm ! i))) \<and>
      ((\<forall>(x::real) d. 0 \<le> d \<longrightarrow> x \<le> x + d) \<and> (\<forall>d\<in>set durs. 0 \<le> d) \<longrightarrow>
         sorted_wrt (\<le>) (map (fst \<circ> snd) cm)))"
proof -
  have h1: "snd (AudioSpriteTool_run example_ffprobe example_ffmpeg 0
      [''A.wav'', ''B.wav'', ''C.wav'']) = Inr (''assets/audio/'' @ uuid_hex 0 @ ''.ogg'')"
    by (simp add: example_abc_run)
  have h2: "distinct (map clip_stem [''A.wav'', ''B.wav'', ''C.wav''])"
    by (simp add: example_stems)
  have h3: "cue_maps (fst (AudioSpriteTool_run example_ffprobe example_ffmpeg 0
       [''A.wav'', ''B.wav'', ''C.wav''])) =
     [[(''A'', 0, 2), (''B'', 2, 7 / 2), (''C'', 11 / 2, 1)]]"
    by (simp add: example_abc_run cue_maps_append)
  show ?thesis
    using sprite_cue_map_contiguous[where ffprobe=example_ffprobe and ffmpeg=example_ffmpeg
        and ?uuid4.0=0 and paths="[''A.wav'', ''B.wav'', ''C.wav'']"
        and sprite="''assets/audio/'' @ uuid_hex 0 @ ''.ogg''", OF h1 h2] h1 h2 h3
    by (intro conjI)
qed

text \<open>
  Claim C1 as stated fails when two clips share a stem.  For \<open>sfx/hit.wav\<close> (2 s),
  \<open>ui/click.wav\<close> (3.5 s), \<open>ui/hit.wav\<close> (1 s) the builder returns, and the cue map it
  writes is \<open>{hit: [5.5, 1], click: [2, 3.5]}\<close>: its first offset is not 0, its second
  offset is not the first offset plus the first duration, and the offsets decrease.
\<close>

theorem sprite_duplicate_stems_not_contiguous:
  "snd (AudioSpriteTool_run example_ffprobe example_ffmpeg 0
      [''sfx/hit.wav'', ''ui/click.wav'', ''ui/hit.wav'']) =
     Inr (''assets/audio/'' @ uuid_hex 0 @ ''.ogg'') \<and>
   cue_maps (fst (AudioSpriteTool_run example_ffprobe example_ffmpeg 0
      [''sfx/hit.wav'', ''ui/click.wav'', ''ui/hit.wav''])) =
     [[(''hit'', 11 / 2, 1), (''click'', 2, 7 / 2)]] \<and>
   fst (snd (hd (cue_maps (fst (AudioSpriteTool_run example_ffprobe example_ffmpeg 0
      [''sfx/hit.wav'', ''ui/click.wav'', ''ui/hit.wav'']))) ! 0)) \<noteq> 0 \<and>
   fst (snd (hd (cue_maps (fst (AudioSpriteTool_run example_ffprobe example_ffmpeg 0
      [''sfx/hit.wav'', ''ui/click.wav'', ''ui/hit.wav'']))) ! 1)) \<noteq>
     fst (snd (hd (cue_maps (fst (AudioSpriteTool_run example_ffprobe example_ffmpeg 0
      [''sfx/hit.wav'', ''ui/click.wav'', ''ui/hit.wav'']))) ! 0)) +
     snd (snd (hd (cue_maps (fst (AudioSpriteTool_run example_ffprobe example_ffmpeg 0
      [''sfx/hit.wav'', ''ui/click.wav'', ''ui/hit.wav'']))) ! 0)) \<and>
   \<not> fst (snd (hd (cue_maps (fst (AudioSpriteTool_run example_ffprobe example_ffmpeg 0
      [''sfx/hit.wav'', ''ui/click.wav'', ''ui/hit.wav'']))) ! 0)) \<le>
     fst (snd (hd (cue_maps (fst (AudioSpriteTool_run example_ffprobe example_ffmpeg 0
      [''sfx/hit.wav'', ''ui/click.wav'', ''ui/hit.wav'']))) ! 1))"
proof -
  have cm: "cue_maps (fst (AudioSpriteTool_run example_ffprobe example_ffmpeg 0
      [''sfx/hit.wav'', ''ui/click.wav'', ''ui/hit.wav''])) =
     [[(''hit'', 11 / 2, 1), (''click'', 2, 7 / 2)]]"
    by (simp add: example_dup_run cue_maps_append)
  show ?thesis unfolding cm by (simp add: example_dup_run)
qed

text \<open>
  Claim C5.  Given fewer than two clips the builder raises \<open>ValueError\<close> with no effect
  on the file system; given two or more clips it never raises \<open>ValueError\<close>.
\<close>

theorem sprite_needs_two_clips:
  "(length paths < 2 \<longrightarrow>
      AudioSpriteTool_run ffprobe ffmpeg uuid4 paths = ([], Inl ValueError)) \<and>
   (2 \<le> length paths \<longrightarrow>
      snd (AudioSpriteTool_run ffprobe ffmpeg uuid4 paths) \<noteq> Inl ValueError)"
  using sprite_run_not_ValueError[of paths ffprobe ffmpeg uuid4]
  by (simp add: AudioSpriteTool_run_def)

theorem sprite_needs_two_clips_witness:
  "AudioSpriteTool_run example_ffprobe example_ffmpeg 0 [] = ([], Inl ValueError) \<and>
   AudioSpriteTool_run example_ffprobe example_ffmpeg 0 [''A.wav''] = ([], Inl ValueError) \<and>
   snd (AudioSpriteTool_run example_ffprobe example_ffmpeg 0 [''A.wav'', ''B.wav'']) \<noteq> Inl ValueError"
  using sprite_needs_two_clips[of "[]" example_ffprobe example_ffmpeg 0]
    sprite_needs_two_clips[of "[''A.wav'']" example_ffprobe example_ffmpeg 0]
    sprite_needs_two_clips[of "[''A.wav'', ''B.wav'']" example_ffprobe example_ffmpeg 0]
  by simp

text \<open>
  Claim C10.  When the builder returns, the keys of the cue map it writes are exactly
  the stems of the clips, each once.  The entry of a stem is the offset and duration of
  the last clip with that stem: a later clip overwrites an earlier one.  So the cue map
  has as many entries as clips when the stems are pairwise distinct, and fewer when two
  clips share a stem.
\<close>

theorem sprite_cue_map_keyed_by_stem:
  fixes ffprobe :: "string \<Rightarrow> 't::{zero,plus} option"
  assumes "snd (AudioSpriteTool_run ffprobe ffmpeg uuid4 paths) = Inr sprite"
  shows "\<exists>durs cm.
      map ffprobe paths = map Some durs \<and>
      cue_maps (fst (AudioSpriteTool_run ffprobe ffmpeg uuid4 paths)) = [cm] \<and>
      distinct (map fst cm) \<and>
      set (map fst cm) = set (map clip_stem paths) \<and>
      (\<forall>i<length paths.
         (\<forall>j. i < j \<and> j < length paths \<longrightarrow> clip_stem (paths ! j) \<noteq> clip_stem (paths ! i)) \<longrightarrow>
         map_of cm (clip_stem (paths ! i)) = Some (running_offsets 0 durs ! i, durs ! i)) \<and>
      (distinct (map clip_stem paths) \<longrightarrow> length cm = length paths) \<and>
      (\<not> distinct (map clip_stem paths) \<longrightarrow> length cm < length paths)"
proof -
  from sprite_run_Inr[OF assms(1)] obtain durs where
    len: "2 \<le> length paths" and ff: "ffmpeg paths" and durs: "map ffprobe paths = map Some durs"
    by blast
  have ld: "length durs = length paths" using durs by (metis length_map)
  let ?offs = "running_offsets 0 durs"
  let ?es = "zip (map clip_stem paths) (zip ?offs durs)"
  let ?cm = "foldl (\<lambda>m (k, v). dict_set m k v) [] ?es"
  have les: "length ?es = length paths" by (simp add: ld length_running_offsets)
  have keys: "map fst ?es = map clip_stem paths"
    by (simp add: ld length_running_offsets)
  have run: "cue_maps (fst (AudioSpriteTool_run ffprobe ffmpeg uuid4 paths)) = [?cm]"
    using sprite_run_ok[where paths=paths and ffprobe=ffprobe and durs=durs and ffmpeg=ffmpeg
        and u=uuid4] len durs ff
    by (simp add: cue_maps_append cue_maps_lines)
  have dist: "distinct (map fst ?cm)"
    by (rule foldl_dict_set_distinct_keys) simp
  have "fst ` set ?cm = fst ` set ?es"
    using foldl_dict_set_keys[of "[]" ?es] by simp
  also have "\<dots> = set (map fst ?es)" by simp
  finally have kset: "set (map fst ?cm) = set (map clip_stem paths)"
    unfolding keys by simp
  have card: "length ?cm = card (set (map clip_stem paths))"
    using distinct_card[OF dist] kset by simp
  have eq: "distinct (map clip_stem paths) \<longrightarrow> length ?cm = length paths"
    using card distinct_card[of "map clip_stem paths"] by simp
  have lt: "\<not> distinct (map clip_stem paths) \<longrightarrow> length ?cm < length paths"
  proof
    assume nd: "\<not> distinct (map clip_stem paths)"
    have "card (set (map clip_stem paths)) \<le> length (map clip_stem paths)"
      by (rule card_length)
    moreover have "card (set (map clip_stem paths)) \<noteq> length (map clip_stem paths)"
      using nd card_distinct[of "map clip_stem paths"] by blast
    ultimately show "length ?cm < length paths" using card by simp
  qed
  have look: "\<forall>i<length paths.
      (\<forall>j. i < j \<and> j < length paths \<longrightarrow> clip_stem (paths ! j) \<noteq> clip_stem (paths ! i)) \<longrightarrow>
      map_of ?cm (clip_stem (paths ! i)) = Some (?offs ! i, durs ! i)"
  proof (intro allI impI)
    fix i
    assume i: "i < length paths"
      and last: "\<forall>j. i < j \<and> j < length paths \<longrightarrow> clip_stem (paths ! j) \<noteq> clip_stem (paths ! i)"
    have nth: "?es ! j = (clip_stem (paths ! j), ?offs ! j, durs ! j)" if "j < length paths" for j
      using that by (simp add: ld length_running_offsets)
    have il: "i < length ?es" by (subst les) (rule i)
    have later: "\<forall>j. i < j \<and> j < length ?es \<longrightarrow> fst (?es ! j) \<noteq> fst (?es ! i)"
    proof (intro allI impI)
      fix j
      assume "i < j \<and> j < length ?es"
      then have j: "i < j" "j < length paths" by (simp_all only: les)
      then have "clip_stem (paths ! j) \<noteq> clip_stem (paths ! i)" using last by blast
      then show "fst (?es ! j) \<noteq> fst (?es ! i)"
        unfolding nth[OF i] nth[OF j(2)] by simp
    qed
    have "map_of (rev ?es) (fst (?es ! i)) = Some (snd (?es ! i))"
      by (rule map_of_rev_last_occurrence[OF il later])
    then show "map_of ?cm (clip_stem (paths ! i)) = Some (?offs ! i, durs ! i)"
      unfolding nth[OF i] by (simp add: foldl_dict_set_map_of)
  qed
  show ?thesis
    by (intro exI[of _ durs] exI[of _ ?cm] conjI) (rule durs run dist kset look eq lt)+
qed

theorem sprite_cue_map_keyed_by_stem_witness:
  "snd (AudioSpriteTool_run example_ffprobe example_ffmpeg 0
      [''sfx/hit.wav'', ''ui/click.wav'', ''ui/hit.wav'']) =
     Inr (''assets/audio/'' @ uuid_hex 0 @ ''.ogg'') \<and>
   clip_stem ''sfx/hit.wav'' = clip_stem ''ui/hit.wav'' \<and>
   cue_maps (fst (AudioSpriteTool_run example_ffprobe example_ffmpeg 0
      [''sfx/hit.wav'', ''ui/click.wav'', ''ui/hit.wav''])) =
     [[(''hit'', 11 / 2, 1), (''click'', 2, 7 / 2)]] \<and>
   (\<exists>durs cm.
      map example_ffprobe [''sfx/hit.wav'', ''ui/click.wav'', ''ui/hit.wav''] = map Some durs \<and>
      cue_maps (fst (AudioSpriteTool_run example_ffprobe example_ffmpeg 0
          [''sfx/hit.wav'', ''ui/click.wav'', ''ui/hit.wav''])) = [cm] \<and>
      distinct (map fst cm) \<and>
      set (map fst cm) = set (map clip_stem [''sfx/hit.wav'', ''ui/click.wav'', ''ui/hit.wav'']) \<and>
      (\<forall>i<length [''sfx/hit.wav'', ''ui/click.wav'', ''ui/hit.wav''].
         (\<forall>j. i < j \<and> j < length [''sfx/hit.wav'', ''ui/click.wav'', ''ui/hit.wav''] \<longrightarrow>
              clip_stem ([''sfx/hit.wav'', ''ui/click.wav'', ''ui/hit.wav''] ! j) \<noteq>
              clip_stem ([''sfx/hit.wav'', ''ui/click.wav'', ''ui/hit.wav''] ! i)) \<longrightarrow>
         map_of cm (clip_stem ([''sfx/hit.wav'', ''ui/click.wav'', ''ui/hit.wav''] ! i)) =
           Some (running_offsets 0 durs ! i, durs ! i)) \<and>
      (distinct (map clip_stem [''sfx/hit.wav'', ''ui/click.wav'', ''ui/hit.wav'']) \<longrightarrow>
         length cm = length [''sfx/hit.wav'', ''ui/click.wav'', ''ui/hit.wav'']) \<and>
      (\<not> distinct (map clip_stem [''sfx/hit.wav'', ''ui/click.wav'', ''ui/hit.wav'']) \<longrightarrow>
         length cm < length [''sfx/hit.wav'', ''ui/click.wav'', ''ui/hit.wav'']))"
proof -
  have h1: "snd (AudioSpriteTool_run example_ffprobe example_ffmpeg 0
      [''sfx/hit.wav'', ''ui/click.wav'', ''ui/hit.wav'']) =
     Inr (''assets/audio/'' @ uuid_hex 0 @ ''.ogg'')"
    by (simp add: example_dup_run)
  have h2: "clip_stem ''sfx/hit.wav'' = clip_stem ''ui/hit.wav''"
    by (simp add: example_stems)
  have h3: "cue_maps (fst (AudioSpriteTool_run example_ffprobe example_ffmpeg 0
      [''sfx/hit.wav'', ''ui/click.wav'', ''ui/hit.wav''])) =
     [[(''hit'', 11 / 2, 1), (''click'', 2, 7 / 2)]]"
    by (simp add: example_dup_run cue_maps_append)
  show ?thesis
    using sprite_cue_map_keyed_by_stem[where ffprobe=example_ffprobe and ffmpeg=example_ffmpeg
        and ?uuid4.0=0 and paths="[''sfx/hit.wav'', ''ui/click.wav'', ''ui/hit.wav'']"
        and sprite="''assets/audio/'' @ uuid_hex 0 @ ''.ogg''", OF h1] h1 h2 h3
    by (intro conjI)
qed

section \<open>Lemmas on the audio normalizer and on output directories\<close>

lemma normalize_out_base:
  assumes "path_stem (Path wav_or_mp3_path) \<noteq> []" "path_stem (Path wav_or_mp3_path) \<noteq> ''.''"
  shows "path_str (joinpath AUD_DIR (path_stem (Path wav_or_mp3_path))) =
      ''assets/audio/'' @ path_stem (Path wav_or_mp3_path)"
  using assms path_stem_no_slash[of wav_or_mp3_path] by (simp add: join_dir_segment(2))

lemma normalize_run_ok:
  assumes "from_file lib wav_or_mp3_path = Some sound"
    and "path_stem (Path wav_or_mp3_path) \<noteq> []"
    and "path_stem (Path wav_or_mp3_path) \<noteq> ''.''"
    and "export_ok lib
           (strip_silence lib (apply_gain lib sound (target_lufs - dBFS lib sound)) 200 (- 40))
           (''assets/audio/'' @ path_stem (Path wav_or_mp3_path) @ ''.ogg'') ''ogg'' ''96k''"
    and "export_ok lib
           (strip_silence lib (apply_gain lib sound (target_lufs - dBFS lib sound)) 200 (- 40))
           (''assets/audio/'' @ path_stem (Path wav_or_mp3_path) @ ''.mp3'') ''mp3'' ''128k''"
  shows "AudioNormalizeTool_run lib wav_or_mp3_path target_lufs =
    ([AudioExport (''assets/audio/'' @ path_stem (Path wav_or_mp3_path) @ ''.ogg'') ''ogg'' ''96k''
        (strip_silence lib (apply_gain lib sound (target_lufs - dBFS lib sound)) 200 (- 40)),
      AudioExport (''assets/audio/'' @ path_stem (Path wav_or_mp3_path) @ ''.mp3'') ''mp3'' ''128k''
        (strip_silence lib (apply_gain lib sound (target_lufs - dBFS lib sound)) 200 (- 40))],
     Inr (''assets/audio/'' @ path_stem (Path wav_or_mp3_path) @ ''.ogg''))"
  using assms(1,4,5) normalize_out_base[OF assms(2,3)]
  by (simp add: AudioNormalizeTool_run_def Let_def)

lemma example_theme:
  "path_stem (Path ''raw/theme.wav'') = ''theme''"
  "from_file example_pydub ''raw/theme.wav'' = Some (- 20, 1500)"
  "export_ok example_pydub s path format bitrate"
  by (simp_all add: path_stem_def path_name_def Path_def splitroot_def example_pydub_def)

lemma example_theme_run:
  "AudioNormalizeTool_run example_pydub ''raw/theme.wav'' (- 14) =
    ([AudioExport ''assets/audio/theme.ogg'' ''ogg'' ''96k'' (- 14, 1500),
      AudioExport ''assets/audio/theme.mp3'' ''mp3'' ''128k'' (- 14, 1500)],
     Inr ''assets/audio/theme.ogg'')"
proof -
  have h: "path_stem (Path ''raw/theme.wav'') \<noteq> []" "path_stem (Path ''raw/theme.wav'') \<noteq> ''.''"
    by (simp_all add: example_theme(1))
  from normalize_run_ok[where lib=example_pydub and wav_or_mp3_path="''raw/theme.wav''"
      and sound="(- 20, 1500)" and target_lufs="- 14", OF example_theme(2) h example_theme(3)
      example_theme(3)]
  show ?thesis by (simp add: example_theme(1) example_pydub_def)
qed

lemma responsive_loop_saved:
  "s \<in> set (fst (responsive_loop lib src p W vs saved outs)) \<Longrightarrow>
   s \<in> set saved \<or>
   (\<exists>key\<in>fst ` set vs.
      save_path s = path_str (joinpath IMG_DIR (path_stem (Path p) @ CHR ''_'' # key @ ''.png'')))"
proof (induction vs arbitrary: saved outs)
  case Nil then show ?case by simp
next
  case (Cons v vs)
  obtain key wr hr where v: "v = (key, wr, hr)" by (cases v)
  show ?case
  proof (cases "ImageOps_fit lib src (W, py_int_truediv (W * hr) wr)")
    case (Inl e)
    then show ?thesis using Cons.prems by (simp add: v Let_def)
  next
    case (Inr variant)
    let ?name = "path_str (joinpath IMG_DIR (path_stem (Path p) @ CHR ''_'' # key @ ''.png''))"
    let ?saved' = "saved @ [ImageSave ?name ''PNG'' None variant]"
    show ?thesis
    proof (cases "save_ok lib variant ?name")
      case False
      with Cons.prems Inr have "s \<in> set ?saved'" by (simp add: v Let_def)
      then show ?thesis by (auto simp: v)
    next
      case True
      with Cons.prems Inr have "s \<in> set (fst (responsive_loop lib src p W vs ?saved'
          (outs @ [?name])))"
        by (simp add: v Let_def)
      from Cons.IH[OF this] show ?thesis by (auto simp: v)
    qed
  qed
qed

lemma responsive_saved_in_images:
  assumes "s \<in> set (fst (ImageResponsiveTool_run lib png_path max_width))"
  shows "in_dir ''assets/images'' (save_path s)"
proof (cases "open_image lib png_path")
  case None then show ?thesis using assms by (simp add: ImageResponsiveTool_run_def)
next
  case (Some src)
  with assms have "s \<in> set (fst (responsive_loop lib src png_path max_width variants [] []))"
    by (simp add: ImageResponsiveTool_run_def)
  from responsive_loop_saved[OF this] obtain key where
    key: "key \<in> fst ` set variants" and
    sp: "save_path s = path_str (joinpath IMG_DIR (path_stem (Path png_path) @ CHR ''_'' # key @ ''.png''))"
    by auto
  have "key = ''169'' \<or> key = ''32'' \<or> key = ''11''"
    using key unfolding variants_def by auto
  then have ns: "CHR ''/'' \<notin> set (key @ ''.png'')" by auto
  let ?seg = "path_stem (Path png_path) @ CHR ''_'' # key @ ''.png''"
  have seg: "CHR ''/'' \<notin> set ?seg" "?seg \<noteq> []"
    using ns path_stem_no_slash[of png_path] by simp_all
  have "path_str (joinpath IMG_DIR ?seg) = ''assets/images/'' @ ?seg"
    by (rule responsive_out_name[OF ns])
  also have "\<dots> = ''assets/images'' @ ''/'' @ ?seg" by simp
  finally have eq: "save_path s = ''assets/images'' @ ''/'' @ ?seg" unfolding sp .
  show ?thesis unfolding eq by (rule in_dir_append[OF seg])
qed

lemma normalize_exports_in_audio:
  assumes "path_stem (Path wav) \<noteq> []" "path_stem (Path wav) \<noteq> ''.''"
    and "e \<in> set (fst (AudioNormalizeTool_run lib wav target))"
  shows "in_dir ''assets/audio'' (export_path e)"
proof (cases "from_file lib wav")
  case None then show ?thesis using assms(3) by (simp add: AudioNormalizeTool_run_def)
next
  case (Some sound)
  have ns: "CHR ''/'' \<notin> set (path_stem (Path wav) @ ''.ogg'')"
    "CHR ''/'' \<notin> set (path_stem (Path wav) @ ''.mp3'')"
    using path_stem_no_slash[of wav] by simp_all
  from assms(3) Some normalize_out_base[OF assms(1,2)]
  have "export_path e = ''assets/audio'' @ ''/'' @ (path_stem (Path wav) @ ''.ogg'') \<or>
        export_path e = ''assets/audio'' @ ''/'' @ (path_stem (Path wav) @ ''.mp3'')"
    by (auto simp: AudioNormalizeTool_run_def Let_def split: if_splits)
  then show ?thesis
    using in_dir_append[OF ns(1), of "''assets/audio''"] in_dir_append[OF ns(2), of "''assets/audio''"]
    by auto
qed

lemma sprite_loop_effects:
  "e \<in> set (fst (sprite_loop ffprobe ct ps cm c eff)) \<Longrightarrow> e \<in> set eff \<or> (\<exists>l. e = WriteLine ct l)"
proof (induction ps arbitrary: cm c eff)
  case Nil then show ?case by simp
next
  case (Cons p ps)
  let ?eff' = "eff @ [WriteLine ct (''file '' @ [CHR 0x27] @ p @ [CHR 0x27, CHR 0x0A])]"
  show ?case
  proof (cases "ffprobe p")
    case None
    with Cons.prems have "e \<in> set ?eff'" by (simp add: Let_def)
    then show ?thesis by auto
  next
    case (Some d)
    with Cons.prems have "e \<in> set (fst (sprite_loop ffprobe ct ps
        (dict_set cm (path_stem (Path p)) (c, d)) (c + d) ?eff'))"
      by (simp add: Let_def)
    from Cons.IH[OF this] show ?thesis by auto
  qed
qed

lemma uuid_file_in_audio:
  assumes "CHR ''/'' \<notin> set ext"
  shows "in_dir ''assets/audio'' (''assets/audio/'' @ uuid_hex u @ CHR ''.'' # ext)"
proof -
  have "CHR ''/'' \<notin> set (uuid_hex u)"
    using uuid_hex_chars[of "CHR ''/''" u] by (auto simp: hexdigits_def)
  then have "CHR ''/'' \<notin> set (uuid_hex u @ CHR ''.'' # ext)" using assms by simp
  from in_dir_append[OF this, of "''assets/audio''"] show ?thesis by simp
qed

lemma sprite_written_in_audio:
  assumes "e \<in> set (fst (AudioSpriteTool_run ffprobe ffmpeg u paths))" "f \<in> set (written e)"
  shows "in_dir ''assets/audio'' f"
proof (cases "length paths < 2")
  case True then show ?thesis using assms by (simp add: AudioSpriteTool_run_def)
next
  case False
  let ?ct = "''assets/audio/'' @ uuid_hex u @ ''.txt''"
  let ?ogg = "''assets/audio/'' @ uuid_hex u @ ''.ogg''"
  let ?json = "''assets/audio/'' @ uuid_hex u @ ''.json''"
  have ptxt: "path_str (joinpath AUD_DIR (uuid_hex u @ ''.txt'')) = ?ct"
    and ogg: "path_str (joinpath AUD_DIR (uuid_hex u @ ''.ogg'')) = ?ogg"
    using uuid_segment(1)[of "''txt''" u] uuid_segment(1)[of "''ogg''" u] by simp_all
  obtain eff r where loop: "sprite_loop ffprobe ?ct paths [] 0 [OpenWrite ?ct] = (eff, r)"
    by (cases "sprite_loop ffprobe ?ct paths [] 0 [OpenWrite ?ct]")
  have eff: "x \<in> set eff \<Longrightarrow> x = OpenWrite ?ct \<or> (\<exists>l. x = WriteLine ?ct l)" for x
    using sprite_loop_effects[of x ffprobe ?ct paths "[]" 0 "[OpenWrite ?ct]"] loop by auto
  have run: "AudioSpriteTool_run ffprobe ffmpeg u paths =
      (case r of Inl err \<Rightarrow> (eff, Inl err)
       | Inr cue_map \<Rightarrow>
           (if \<not> ffmpeg paths then (eff @ [Ffmpeg ?ct ?ogg], Inl CalledProcessError)
            else (eff @ [Ffmpeg ?ct ?ogg, Unlink ?ct, WriteText ?json cue_map], Inr ?ogg)))"
    unfolding AudioSpriteTool_run_def Let_def ptxt ogg sprite_json_path loop
    using False by (simp add: path_str_def split: sum.splits)
  have "e \<in> set eff \<or> e = Ffmpeg ?ct ?ogg \<or> e = Unlink ?ct \<or> (\<exists>cm. e = WriteText ?json cm)"
    using assms(1) unfolding run by (cases r; cases "ffmpeg paths") auto
  then have "e = OpenWrite ?ct \<or> (\<exists>l. e = WriteLine ?ct l) \<or> e = Ffmpeg ?ct ?ogg \<or> e = Unlink ?ct \<or>
        (\<exists>cm. e = WriteText ?json cm)"
    using eff by blast
  then have "f = ?ct \<or> f = ?ogg \<or> f = ?json" using assms(2) by auto
  then show ?thesis
    using uuid_file_in_audio[of "''txt''" u] uuid_file_in_audio[of "''ogg''" u]
      uuid_file_in_audio[of "''json''" u]
    by auto
qed

lemma compress_saved_beside_source:
  assumes "s \<in> set (fst (ImageCompressTool_run str_upper lib png_path fmt target))"
  shows "\<exists>out. with_suffix (Path png_path) (''.'' @ lower (str_upper fmt)) = Inr out \<and>
      save_path s = path_str out \<and> p_root out = p_root (Path png_path) \<and>
      butlast (p_parts out) = butlast (p_parts (Path png_path))"
proof -
  have nf: "\<not> str_upper fmt \<notin> {''AVIF'', ''WEBP''}"
  proof
    assume "str_upper fmt \<notin> {''AVIF'', ''WEBP''}"
    then have "ImageCompressTool_run str_upper lib png_path fmt target = ([], Inl ValueError)"
      unfolding compress_run_unfold by (rule if_P)
    with assms show False by simp
  qed
  note mem = assms[unfolded compress_run_unfold if_not_P[OF nf]]
  from mem obtain im where im: "open_image lib png_path = Some im"
    by (cases "open_image lib png_path") auto
  from mem im obtain out where
    ws: "with_suffix (Path png_path) (''.'' @ lower (str_upper fmt)) = Inr out"
    by (cases "with_suffix (Path png_path) (''.'' @ lower (str_upper fmt))") auto
  from mem have sp: "save_path s = path_str out" unfolding im ws by auto
  from ws have "\<exists>n. out = (Path png_path)\<lparr>p_parts := butlast (p_parts (Path png_path)) @ [n]\<rparr>"
    unfolding with_suffix_def Let_def by (auto split: if_splits)
  then have "p_root out = p_root (Path png_path) \<and>
      butlast (p_parts out) = butlast (p_parts (Path png_path))"
    by auto
  then show ?thesis using ws sp by blast
qed

section \<open>Audio Normalizer\<close>

text \<open>
  For a decodable source whose stem is neither empty nor a single dot, and when both
  exports succeed, the normalizer applies the gain \<open>target_lufs - dBFS\<close>, strips silence
  with \<open>silence_len = 200\<close> and \<open>silence_thresh = -40\<close>, exports the result as OGG at 96k
  and as MP3 at 128k to \<open>assets/audio/<stem>.ogg\<close> and \<open>assets/audio/<stem>.mp3\<close>, and
  returns the OGG path.
\<close>

theorem normalize_exports:
  assumes "from_file lib wav_or_mp3_path = Some sound"
    and "path_stem (Path wav_or_mp3_path) \<noteq> []"
    and "path_stem (Path wav_or_mp3_path) \<noteq> ''.''"
    and "export_ok lib
           (strip_silence lib (apply_gain lib sound (target_lufs - dBFS lib sound)) 200 (- 40))
           (''assets/audio/'' @ path_stem (Path wav_or_mp3_path) @ ''.ogg'') ''ogg'' ''96k''"
    and "export_ok lib
           (strip_silence lib (apply_gain lib sound (target_lufs - dBFS lib sound)) 200 (- 40))
           (''assets/audio/'' @ path_stem (Path wav_or_mp3_path) @ ''.mp3'') ''mp3'' ''128k''"
  shows "AudioNormalizeTool_run lib wav_or_mp3_path target_lufs =
    ([AudioExport (''assets/audio/'' @ path_stem (Path wav_or_mp3_path) @ ''.ogg'') ''ogg'' ''96k''
        (strip_silence lib (apply_gain lib sound (target_lufs - dBFS lib sound)) 200 (- 40)),
      AudioExport (''assets/audio/'' @ path_stem (Path wav_or_mp3_path) @ ''.mp3'') ''mp3'' ''128k''
        (strip_silence lib (apply_gain lib sound (target_lufs - dBFS lib sound)) 200 (- 40))],
     Inr (''assets/audio/'' @ path_stem (Path wav_or_mp3_path) @ ''.ogg''))"
  using assms by (rule normalize_run_ok)

theorem normalize_exports_witness:
  "from_file example_pydub ''raw/theme.wav'' = Some (- 20, 1500) \<and>
   path_stem (Path ''raw/theme.wav'') \<noteq> [] \<and>
   path_stem (Path ''raw/theme.wav'') \<noteq> ''.'' \<and>
   AudioNormalizeTool_run example_pydub ''raw/theme.wav'' (- 14) =
    ([AudioExport ''assets/audio/theme.ogg'' ''ogg'' ''96k'' (- 14, 1500),
      AudioExport ''assets/audio/theme.mp3'' ''mp3'' ''128k'' (- 14, 1500)],
     Inr ''assets/audio/theme.ogg'')"
proof -
  have h: "path_stem (Path ''raw/theme.wav'') \<noteq> []" "path_stem (Path ''raw/theme.wav'') \<noteq> ''.''"
    by (simp_all add: example_theme(1))
  from normalize_exports[where lib=example_pydub and wav_or_mp3_path="''raw/theme.wav''"
      and sound="(- 20, 1500)" and target_lufs="- 14", OF example_theme(2) h example_theme(3)
      example_theme(3)]
  have "AudioNormalizeTool_run example_pydub ''raw/theme.wav'' (- 14) =
    ([AudioExport ''assets/audio/theme.ogg'' ''ogg'' ''96k'' (- 14, 1500),
      AudioExport ''assets/audio/theme.mp3'' ''mp3'' ''128k'' (- 14, 1500)],
     Inr ''assets/audio/theme.ogg'')"
    by (simp add: example_theme(1) example_pydub_def)
  then show ?thesis using h example_theme(2) by simp
qed

text \<open>
  Claim C6 at a source named \<open>..wav\<close>.  pathlib gives this name the stem \<open>.\<close>, joining
  the audio directory with \<open>.\<close> gives the audio directory itself, and the two exports go
  to \<open>assets/audio.ogg\<close> and \<open>assets/audio.mp3\<close>: files of \<open>assets/\<close>, not of the
  audio directory, and not named after the stem.
\<close>

theorem normalize_dot_stem_leaves_audio_dir:
  "AudioNormalizeTool_run example_pydub ''raw/..wav'' (- 14) =
    ([AudioExport ''assets/audio.ogg'' ''ogg'' ''96k'' (- 14, 1500),
      AudioExport ''assets/audio.mp3'' ''mp3'' ''128k'' (- 14, 1500)],
     Inr ''assets/audio.ogg'') \<and>
   path_stem (Path ''raw/..wav'') = ''.'' \<and>
   \<not> in_dir ''assets/audio'' ''assets/audio.ogg'' \<and>
   \<not> in_dir ''assets/audio'' ''assets/audio.mp3''"
proof -
  have st: "path_stem (Path ''raw/..wav'') = ''.''"
    by (simp add: path_stem_def path_name_def Path_def splitroot_def)
  have "path_str (joinpath AUD_DIR ''.'') = ''assets/audio''"
    by (simp add: AUD_DIR_eq joinpath_def Path_def splitroot_def path_str_def)
  then have "AudioNormalizeTool_run example_pydub ''raw/..wav'' (- 14) =
    ([AudioExport ''assets/audio.ogg'' ''ogg'' ''96k'' (- 14, 1500),
      AudioExport ''assets/audio.mp3'' ''mp3'' ''128k'' (- 14, 1500)],
     Inr ''assets/audio.ogg'')"
    by (simp add: AudioNormalizeTool_run_def Let_def st example_pydub_def)
  then show ?thesis using st by (simp add: in_dir_def)
qed

section \<open>Repository Sync\<close>

text \<open>
  What the tool returns when git can be started.  When staging and commit succeed, a
  push that exits with a non-zero status makes the tool return the string
  \<open>Committed locally (no remote/push failed).\<close> and a successful push the different
  string \<open>Committed & pushed.\<close>.  When staging exits with a non-zero status, or staging
  succeeds and the commit exits with a non-zero status, the tool returns \<open>Git error: \<close>
  followed by the stripped standard output of the failed command, whatever the command
  wrote to standard error.
\<close>

theorem git_sync_outcomes:
  "(git [''add'', ''.''] = Completed out1 \<and> git [''commit'', ''-m'', commit_message] = Completed out2 \<and>
      git [''push''] = NonZeroExit out3 err3 \<longrightarrow>
      GitOpsTool_run str_strip git commit_message = Inr ''Committed locally (no remote/push failed).'') \<and>
   (git [''add'', ''.''] = Completed out1 \<and> git [''commit'', ''-m'', commit_message] = Completed out2 \<and>
      git [''push''] = Completed out3 \<longrightarrow>
      GitOpsTool_run str_strip git commit_message = Inr ''Committed & pushed.'') \<and>
   ''Committed & pushed.'' \<noteq> ''Committed locally (no remote/push failed).'' \<and>
   (git [''add'', ''.''] = NonZeroExit out err \<longrightarrow>
      GitOpsTool_run str_strip git commit_message = Inr (''Git error: '' @ str_strip out)) \<and>
   (git [''add'', ''.''] = Completed out1 \<and>
      git [''commit'', ''-m'', commit_message] = NonZeroExit out err \<longrightarrow>
      GitOpsTool_run str_strip git commit_message = Inr (''Git error: '' @ str_strip out))"
  by (simp add: GitOpsTool_run_def)

theorem git_sync_outcomes_witness:
  "GitOpsTool_run ascii_strip example_git ''asset-update'' =
     Inr ''Committed locally (no remote/push failed).'' \<and>
   GitOpsTool_run ascii_strip example_git_clean ''asset-update'' =
     Inr ''Git error: nothing to commit, working tree clean''"
proof -
  have a: "example_git [''add'', ''.''] = Completed []"
    "example_git [''commit'', ''-m'', ''asset-update''] = Completed []"
    "example_git [''push''] =
       NonZeroExit [] (''fatal: No configured push destination.'' @ [CHR 0x0A])"
    by (simp_all add: example_git_def)
  have b: "example_git_clean [''add'', ''.''] = Completed []"
    "example_git_clean [''commit'', ''-m'', ''asset-update''] =
       NonZeroExit (''nothing to commit, working tree clean'' @ [CHR 0x0A]) []"
    by (simp_all add: example_git_clean_def)
  have s: "ascii_strip (''nothing to commit, working tree clean'' @ [CHR 0x0A]) =
      ''nothing to commit, working tree clean''"
    by (simp add: ascii_strip_def isspace_def)
  from git_sync_outcomes[where git=example_git and commit_message="''asset-update''"
      and ?out1.0="[]" and ?out2.0="[]" and ?out3.0="[]"
      and ?err3.0="''fatal: No configured push destination.'' @ [CHR 0x0A]"
      and str_strip=ascii_strip] a
  have 1: "GitOpsTool_run ascii_strip example_git ''asset-update'' =
      Inr ''Committed locally (no remote/push failed).''"
    by blast
  from git_sync_outcomes[where git=example_git_clean and commit_message="''asset-update''"
      and ?out1.0="[]" and out="''nothing to commit, working tree clean'' @ [CHR 0x0A]"
      and err="[]" and str_strip=ascii_strip] b
  have 2: "GitOpsTool_run ascii_strip example_git_clean ''asset-update'' =
      Inr (''Git error: '' @ ascii_strip (''nothing to commit, working tree clean'' @ [CHR 0x0A]))"
    by blast
  show ?thesis using 1 2 unfolding s by simp
qed

text \<open>
  Claim C4 where staging fails.  In a directory that is no git repository, \<open>git add .\<close>
  exits with a non-zero status and writes its message to standard error, which the tool
  does not capture: the tool returns the bare string \<open>Git error: \<close>, without the failure
  message.  Where git cannot be started at all, the exception propagates.
\<close>

theorem git_sync_drops_failure_message:
  "example_git_norepo [''add'', ''.''] =
     NonZeroExit [] (''fatal: not a git repository (or any of the parent directories): .git''
                     @ [CHR 0x0A]) \<and>
   GitOpsTool_run ascii_strip example_git_norepo ''asset-update'' = Inr ''Git error: '' \<and>
   example_git_missing [''add'', ''.''] = NotStarted \<and>
   GitOpsTool_run ascii_strip example_git_missing ''asset-update'' = Inl OSError"
  by (simp add: GitOpsTool_run_def example_git_norepo_def example_git_missing_def
      ascii_strip_def)

section \<open>Where the generated files go\<close>

text \<open>
  Claim C8, as amended.  Every responsive variant is saved directly in
  \<open>assets/images\<close>.  Every file the sprite builder creates (the concat list, the sprite
  and the cue map) lies directly in \<open>assets/audio\<close>, and so does every export of the
  normalizer for a source whose stem is neither empty nor a single dot.  The compressor
  does not write to a fixed directory: every save goes to the source path with its
  extension replaced, in the directory of the source.
\<close>

theorem generated_media_directories:
  "(\<forall>s\<in>set (fst (ImageResponsiveTool_run lib png_path max_width)).
      in_dir ''assets/images'' (save_path s)) \<and>
   (path_stem (Path wav_or_mp3_path) \<noteq> [] \<and> path_stem (Path wav_or_mp3_path) \<noteq> ''.'' \<longrightarrow>
      (\<forall>e\<in>set (fst (AudioNormalizeTool_run audio_lib wav_or_mp3_path target_lufs)).
         in_dir ''assets/audio'' (export_path e))) \<and>
   (\<forall>e\<in>set (fst (AudioSpriteTool_run ffprobe ffmpeg uuid4 paths)).
      \<forall>f\<in>set (written e). in_dir ''assets/audio'' f) \<and>
   (\<forall>s\<in>set (fst (ImageCompressTool_run str_upper lib' src_path fmt target_size_kb)).
      \<exists>out. with_suffix (Path src_path) (''.'' @ lower (str_upper fmt)) = Inr out \<and>
        save_path s = path_str out \<and> p_root out = p_root (Path src_path) \<and>
        butlast (p_parts out) = butlast (p_parts (Path src_path)))"
proof (intro conjI ballI impI)
  fix s assume "s \<in> set (fst (ImageResponsiveTool_run lib png_path max_width))"
  then show "in_dir ''assets/images'' (save_path s)" by (rule responsive_saved_in_images)
next
  fix e
  assume "path_stem (Path wav_or_mp3_path) \<noteq> [] \<and> path_stem (Path wav_or_mp3_path) \<noteq> ''.''"
    and "e \<in> set (fst (AudioNormalizeTool_run audio_lib wav_or_mp3_path target_lufs))"
  then show "in_dir ''assets/audio'' (export_path e)"
    using normalize_exports_in_audio[of wav_or_mp3_path e audio_lib target_lufs] by blast
next
  fix e f
  assume "e \<in> set (fst (AudioSpriteTool_run ffprobe ffmpeg uuid4 paths))" "f \<in> set (written e)"
  then show "in_dir ''assets/audio'' f" by (rule sprite_written_in_audio)
next
  fix s
  assume "s \<in> set (fst (ImageCompressTool_run str_upper lib' src_path fmt target_size_kb))"
  then show "\<exists>out. with_suffix (Path src_path) (''.'' @ lower (str_upper fmt)) = Inr out \<and>
        save_path s = path_str out \<and> p_root out = p_root (Path src_path) \<and>
        butlast (p_parts out) = butlast (p_parts (Path src_path))"
    by (rule compress_saved_beside_source)
qed

theorem generated_media_directories_witness:
  "path_stem (Path ''raw/theme.wav'') \<noteq> [] \<and> path_stem (Path ''raw/theme.wav'') \<noteq> ''.'' \<and>
   fst (ImageResponsiveTool_run example_pillow ''art/hero.png'' 1024) \<noteq> [] \<and>
   list_all (\<lambda>s. in_dir ''assets/images'' (save_path s))
     (fst (ImageResponsiveTool_run example_pillow ''art/hero.png'' 1024)) \<and>
   fst (AudioNormalizeTool_run example_pydub ''raw/theme.wav'' (- 14)) \<noteq> [] \<and>
   list_all (\<lambda>e. in_dir ''assets/audio'' (export_path e))
     (fst (AudioNormalizeTool_run example_pydub ''raw/theme.wav'' (- 14))) \<and>
   fst (AudioSpriteTool_run example_ffprobe example_ffmpeg 0 [''A.wav'', ''B.wav'', ''C.wav'']) \<noteq> [] \<and>
   list_all (\<lambda>e. list_all (in_dir ''assets/audio'') (written e))
     (fst (AudioSpriteTool_run example_ffprobe example_ffmpeg 0 [''A.wav'', ''B.wav'', ''C.wav''])) \<and>
   fst (ImageCompressTool_run ascii_upper example_pillow ''art/hero.png'' ''avif'' 200) \<noteq> [] \<and>
   list_all (\<lambda>s. \<exists>out. with_suffix (Path ''art/hero.png'') (''.'' @ lower (ascii_upper ''avif'')) = Inr out \<and>
        save_path s = path_str out \<and> p_root out = p_root (Path ''art/hero.png'') \<and>
        butlast (p_parts out) = butlast (p_parts (Path ''art/hero.png'')))
     (fst (ImageCompressTool_run ascii_upper example_pillow ''art/hero.png'' ''avif'' 200))"
proof -
  have st: "path_stem (Path ''raw/theme.wav'') \<noteq> []" "path_stem (Path ''raw/theme.wav'') \<noteq> ''.''"
    by (simp_all add: example_theme(1))
  have r: "fst (ImageResponsiveTool_run example_pillow ''art/hero.png'' 1024) \<noteq> []"
    by (simp add: example_hero_1024)
  have n: "fst (AudioNormalizeTool_run example_pydub ''raw/theme.wav'' (- 14)) \<noteq> []"
    by (simp add: example_theme_run)
  have a: "fst (AudioSpriteTool_run example_ffprobe example_ffmpeg 0
      [''A.wav'', ''B.wav'', ''C.wav'']) \<noteq> []"
    by (simp add: example_abc_run)
  have c: "fst (ImageCompressTool_run ascii_upper example_pillow ''art/hero.png'' ''avif'' 200) \<noteq> []"
    by (simp add: example_compress_run)
  note inst = generated_media_directories[where lib=example_pillow
      and png_path="''art/hero.png''" and max_width=1024 and audio_lib=example_pydub
      and wav_or_mp3_path="''raw/theme.wav''" and target_lufs="- 14"
      and ffprobe=example_ffprobe and ffmpeg=example_ffmpeg and ?uuid4.0=0
      and paths="[''A.wav'', ''B.wav'', ''C.wav'']" and str_upper=ascii_upper
      and lib'=example_pillow and src_path="''art/hero.png''" and fmt="''avif''"
      and target_size_kb=200]
  show ?thesis
    unfolding list_all_iff using st r n a c inst by blast
qed

text \<open>
  Claim C8 as stated fails for the compressor: compressing \<open>art/hero.png\<close> writes
  \<open>art/hero.avif\<close> five times, a path in neither fixed directory.
\<close>

theorem compressed_image_outside_asset_dirs:
  "map save_path (fst (ImageCompressTool_run ascii_upper example_pillow ''art/hero.png'' ''avif'' 200)) =
     [''art/hero.avif'', ''art/hero.avif'', ''art/hero.avif'', ''art/hero.avif'', ''art/hero.avif''] \<and>
   \<not> in_dir ''assets/images'' ''art/hero.avif'' \<and>
   \<not> in_dir ''assets/audio'' ''art/hero.avif''"
  by (simp add: example_compress_run in_dir_def)

end
